theory Spec2Isabelle
  imports Main
begin

text \<open>
  A model of \<^verbatim>\<open>main.go\<close>: the endpoint handler \<^verbatim>\<open>helloHandler\<close>, the middlewares
  \<^verbatim>\<open>recovery\<close> and \<^verbatim>\<open>accessLog\<close>, the envelope \<^verbatim>\<open>response\<close> and the chain that \<^verbatim>\<open>main\<close>
  builds, together with the parts of the Go library that decide what they do: the JSON
  encoding and decoding of the envelope, \<^verbatim>\<open>%q\<close>, the layout of the time, and the contract
  of the response writer. A handler is a function on an explicit state; a panic is a result.
\<close>

section \<open>Byte strings\<close>

text \<open>
  A Go \<^verbatim>\<open>string\<close> and a \<^verbatim>\<open>[]byte\<close> are sequences of bytes; both are modelled by
  \<^typ>\<open>string\<close>, whose characters are the 256 byte values. Text that is not ASCII is held
  in its UTF-8 encoding, as the compiler stores the literals of \<^verbatim>\<open>main.go\<close>.
\<close>

definition byte :: "char \<Rightarrow> nat" where
  "byte c = of_char c"

definition lowerhex :: string where
  "lowerhex = ''0123456789abcdef''"

subsection \<open>UTF-8 (package \<^verbatim>\<open>unicode/utf8\<close>)\<close>

definition RuneError :: nat where
  "RuneError = 0xFFFD"

text \<open>
  The table \<^verbatim>\<open>first\<close> of \<^verbatim>\<open>unicode/utf8\<close> for a leading byte \<open>\<ge> 0x80\<close>: the length of the
  sequence and the range accepted for its second byte; \<open>None\<close> is the entry \<^verbatim>\<open>xx\<close>.
\<close>

definition first :: "nat \<Rightarrow> (nat \<times> nat \<times> nat) option" where
  "first b =
     (if 0xC2 \<le> b \<and> b \<le> 0xDF then Some (2, 0x80, 0xBF)
      else if b = 0xE0 then Some (3, 0xA0, 0xBF)
      else if 0xE1 \<le> b \<and> b \<le> 0xEC then Some (3, 0x80, 0xBF)
      else if b = 0xED then Some (3, 0x80, 0x9F)
      else if 0xEE \<le> b \<and> b \<le> 0xEF then Some (3, 0x80, 0xBF)
      else if b = 0xF0 then Some (4, 0x90, 0xBF)
      else if 0xF1 \<le> b \<and> b \<le> 0xF3 then Some (4, 0x80, 0xBF)
      else if b = 0xF4 then Some (4, 0x80, 0x8F)
      else None)"

text \<open>
  \<^verbatim>\<open>utf8.DecodeRuneInString\<close>: the rune at the front of the string and the number of bytes
  it takes; \<open>(RuneError, 1)\<close> for a byte that starts no valid sequence. The masks
  \<^verbatim>\<open>s0&mask2\<close>, \<^verbatim>\<open>s0&mask3\<close>, \<^verbatim>\<open>s0&mask4\<close>, \<^verbatim>\<open>s&maskx\<close> are written as remainders and
  the shifts as multiplications.
\<close>

definition DecodeRuneInString :: "string \<Rightarrow> nat \<times> nat" where
  "DecodeRuneInString s =
     (case s of
        [] \<Rightarrow> (RuneError, 0)
      | c0 # _ \<Rightarrow>
          (let s0 = byte c0 in
           if s0 < 0x80 then (s0, 1)
           else
             (case first s0 of
                None \<Rightarrow> (RuneError, 1)
              | Some (sz, lo, hi) \<Rightarrow>
                  if length s < sz then (RuneError, 1)
                  else
                    (let s1 = byte (s ! 1) in
                     if s1 < lo \<or> hi < s1 then (RuneError, 1)
                     else if sz \<le> 2 then (s0 mod 32 * 64 + s1 mod 64, 2)
                     else
                       (let s2 = byte (s ! 2) in
                        if s2 < 0x80 \<or> 0xBF < s2 then (RuneError, 1)
                        else if sz \<le> 3
                        then (s0 mod 16 * 4096 + s1 mod 64 * 64 + s2 mod 64, 3)
                        else
                          (let s3 = byte (s ! 3) in
                           if s3 < 0x80 \<or> 0xBF < s3 then (RuneError, 1)
                           else (s0 mod 8 * 262144 + s1 mod 64 * 4096
                                   + s2 mod 64 * 64 + s3 mod 64, 4)))))))"

section \<open>The response envelope and its JSON encoding\<close>

text \<open>
  \<^verbatim>\<open>type response struct { Data string `json:"data,omitempty"`; Error string `json:"error,omitempty"` }\<close>
\<close>

record response =
  Data :: string
  Error :: string

subsection \<open>Strings (\<^verbatim>\<open>encoding/json\<close>, \<^verbatim>\<open>appendString\<close> with HTML escaping)\<close>

text \<open>
  \<^verbatim>\<open>htmlSafeSet\<close>: the ASCII bytes that are copied as they are: all from the space on, except
  the double quote, the backslash and \<^verbatim>\<open><\<close>, \<^verbatim>\<open>>\<close>, \<^verbatim>\<open>&\<close>.
\<close>

definition htmlSafeSet :: "nat \<Rightarrow> bool" where
  "htmlSafeSet b \<longleftrightarrow>
     0x20 \<le> b \<and> b < 0x80 \<and> b \<noteq> 0x22 \<and> b \<noteq> 0x26 \<and> b \<noteq> 0x3C \<and> b \<noteq> 0x3E \<and> b \<noteq> 0x5C"

text \<open>
  The escape written for an ASCII byte outside \<^const>\<open>htmlSafeSet\<close>. The short forms for
  backspace and form feed are those of the current library; its older versions write
  \<^verbatim>\<open>\u0008\<close> and \<^verbatim>\<open>\u000c\<close>, which stand for the same bytes.
\<close>

definition escapeByte :: "char \<Rightarrow> string" where
  "escapeByte c =
     (let b = byte c in
      if b = 0x5C \<or> b = 0x22 then [CHR 0x5C, c]
      else if b = 0x08 then [CHR 0x5C, CHR ''b'']
      else if b = 0x0C then [CHR 0x5C, CHR ''f'']
      else if b = 0x0A then [CHR 0x5C, CHR ''n'']
      else if b = 0x0D then [CHR 0x5C, CHR ''r'']
      else if b = 0x09 then [CHR 0x5C, CHR ''t'']
      else [CHR 0x5C, CHR ''u'', CHR ''0'', CHR ''0'', lowerhex ! (b div 16), lowerhex ! (b mod 16)])"

text \<open>
  The loop of \<^verbatim>\<open>appendString\<close> over the bytes of the source string, without the two
  enclosing quotes: a safe ASCII byte is copied, another ASCII byte is escaped, an invalid
  byte becomes the escape of U+FFFD, U+2028 and U+2029 are escaped, any other rune is copied.
\<close>

fun appendStringBody :: "string \<Rightarrow> string" where
  "appendStringBody [] = []"
| "appendStringBody (c # cs) =
     (if byte c < 0x80 then
        (if htmlSafeSet (byte c) then [c] else escapeByte c) @ appendStringBody cs
      else
        (let rs = DecodeRuneInString (c # cs); r = fst rs; size = snd rs in
         if r = RuneError \<and> size = 1 then
           [CHR 0x5C, CHR ''u'', CHR ''f'', CHR ''f'', CHR ''f'', CHR ''d''] @ appendStringBody cs
         else if r = 0x2028 \<or> r = 0x2029 then
           [CHR 0x5C, CHR ''u'', CHR ''2'', CHR ''0'', CHR ''2'', lowerhex ! (r mod 16)]
             @ appendStringBody (drop (size - 1) cs)
         else take size (c # cs) @ appendStringBody (drop (size - 1) cs)))"

definition appendString :: "string \<Rightarrow> string" where
  "appendString s = [CHR 0x22] @ appendStringBody s @ [CHR 0x22]"

subsection \<open>The struct encoder\<close>

text \<open>
  The fields are written in declaration order under the names of their tags; a field tagged
  \<^verbatim>\<open>omitempty\<close> whose string is empty is skipped.
\<close>

definition structFields :: "response \<Rightarrow> (string \<times> string) list" where
  "structFields v = filter (\<lambda>(name, s). s \<noteq> []) [(''data'', Data v), (''error'', Error v)]"

fun encodeFields :: "(string \<times> string) list \<Rightarrow> string" where
  "encodeFields [] = []"
| "encodeFields [(name, s)] = appendString name @ '':'' @ appendString s"
| "encodeFields ((name, s) # fs) = appendString name @ '':'' @ appendString s @ '','' @ encodeFields fs"

definition structEncode :: "response \<Rightarrow> string" where
  "structEncode v = ''{'' @ encodeFields (structFields v) @ ''}''"

text \<open>
  \<^verbatim>\<open>json.Marshal\<close> returns the bytes and an error; \<open>Inl\<close> carries the text of the error. For a
  struct of two strings it has no failing case.
\<close>

definition json_Marshal :: "response \<Rightarrow> string + string" where
  "json_Marshal v = Inr (structEncode v)"

section \<open>Time\<close>

text \<open>
  What \<^verbatim>\<open>time.Now()\<close> returns: the wall clock, broken down in the local zone as
  \<^verbatim>\<open>Time.Format\<close> reads it (date, clock, weekday, offset east of UTC in seconds), and the
  reading of the monotonic clock in nanoseconds.
\<close>

datatype Weekday = Sunday | Monday | Tuesday | Wednesday | Thursday | Friday | Saturday

datatype Month = January | February | March | April | May | June | July
  | August | September | October | November | December

record Time =
  Year :: int
  Mon :: Month
  Day :: nat
  Hour :: nat
  Minute :: nat
  Second :: nat
  Wday :: Weekday
  offset :: int
  monotonic :: int

fun Weekday_String :: "Weekday \<Rightarrow> string" where
  "Weekday_String Sunday = ''Sunday''"
| "Weekday_String Monday = ''Monday''"
| "Weekday_String Tuesday = ''Tuesday''"
| "Weekday_String Wednesday = ''Wednesday''"
| "Weekday_String Thursday = ''Thursday''"
| "Weekday_String Friday = ''Friday''"
| "Weekday_String Saturday = ''Saturday''"

fun Month_String :: "Month \<Rightarrow> string" where
  "Month_String January = ''January''"
| "Month_String February = ''February''"
| "Month_String March = ''March''"
| "Month_String April = ''April''"
| "Month_String May = ''May''"
| "Month_String June = ''June''"
| "Month_String July = ''July''"
| "Month_String August = ''August''"
| "Month_String September = ''September''"
| "Month_String October = ''October''"
| "Month_String November = ''November''"
| "Month_String December = ''December''"

text \<open>The decimal digits of a number, most significant first.\<close>

fun decimal :: "nat \<Rightarrow> string" where
  "decimal n =
     (if n < 10 then [''0123456789'' ! n]
      else decimal (n div 10) @ [''0123456789'' ! (n mod 10)])"

declare decimal.simps [simp del]

text \<open>
  \<^verbatim>\<open>appendInt(b, x, width)\<close> of package \<^verbatim>\<open>time\<close>: a minus sign for a negative number, then
  its digits, padded with zeros on the left to the width.
\<close>

definition appendInt :: "int \<Rightarrow> nat \<Rightarrow> string" where
  "appendInt x width =
     (let ds = decimal (nat \<bar>x\<bar>)
      in (if x < 0 then ''-'' else []) @ replicate (width - length ds) (CHR ''0'') @ ds)"

text \<open>
  The zone of the layout element \<^verbatim>\<open>-0700\<close>: the offset in minutes (Go's division truncates
  toward zero), its sign, and hours and minutes on two digits each.
\<close>

definition appendNumTZ :: "int \<Rightarrow> string" where
  "appendNumTZ off =
     (let zone = (if off < 0 then - ((- off) div 60) else off div 60);
          sign = (if zone < 0 then ''-'' else ''+'');
          z = \<bar>zone\<bar>
      in sign @ appendInt (z div 60) 2 @ appendInt (z mod 60) 2)"

text \<open>
  \<^verbatim>\<open>t.Format(time.RFC1123Z)\<close>, the layout \<^verbatim>\<open>Mon, 02 Jan 2006 15:04:05 -0700\<close>.
\<close>

definition Format_RFC1123Z :: "'a Time_scheme \<Rightarrow> string" where
  "Format_RFC1123Z t =
     take 3 (Weekday_String (Wday t)) @ '', '' @ appendInt (int (Day t)) 2 @ '' ''
       @ take 3 (Month_String (Mon t)) @ '' '' @ appendInt (Year t) 4 @ '' ''
       @ appendInt (int (Hour t)) 2 @ '':'' @ appendInt (int (Minute t)) 2 @ '':''
       @ appendInt (int (Second t)) 2 @ '' '' @ appendNumTZ (offset t)"

section \<open>Quoting (\<^verbatim>\<open>strconv.Quote\<close>, the verb \<^verbatim>\<open>%q\<close> of package \<^verbatim>\<open>fmt\<close>)\<close>

text \<open>\<^verbatim>\<open>utf8.AppendRune\<close>: the UTF-8 encoding of a rune.\<close>

definition encode3 :: "nat \<Rightarrow> string" where
  "encode3 r = [char_of (0xE0 + r div 4096), char_of (0x80 + r div 64 mod 64), char_of (0x80 + r mod 64)]"

definition AppendRune :: "nat \<Rightarrow> string" where
  "AppendRune r =
     (if r \<le> 0x7F then [char_of r]
      else if r \<le> 0x7FF then [char_of (0xC0 + r div 64), char_of (0x80 + r mod 64)]
      else if r > 0x10FFFF \<or> (0xD800 \<le> r \<and> r \<le> 0xDFFF) then encode3 RuneError
      else if r \<le> 0xFFFF then encode3 r
      else [char_of (0xF0 + r div 262144), char_of (0x80 + r div 4096 mod 64),
            char_of (0x80 + r div 64 mod 64), char_of (0x80 + r mod 64)])"

definition ValidRune :: "nat \<Rightarrow> bool" where
  "ValidRune r \<longleftrightarrow> r < 0xD800 \<or> (0xDFFF < r \<and> r \<le> 0x10FFFF)"

text \<open>
  \<^verbatim>\<open>strconv.IsPrint\<close>. Up to U+00FF the function decides by comparisons; above, it searches
  the tables \<^verbatim>\<open>isPrint16\<close>, \<^verbatim>\<open>isNotPrint16\<close>, \<^verbatim>\<open>isPrint32\<close>, \<^verbatim>\<open>isNotPrint32\<close> of the
  package, which are a parameter here: \<open>tbl r\<close> says whether the tables list \<open>r\<close> as printable.
\<close>

definition IsPrint :: "(nat \<Rightarrow> bool) \<Rightarrow> nat \<Rightarrow> bool" where
  "IsPrint tbl r =
     (if r \<le> 0xFF then
        (if 0x20 \<le> r \<and> r < 0x7F then True
         else if 0xA1 \<le> r then r \<noteq> 0xAD
         else False)
      else tbl r)"

definition hex2 :: "nat \<Rightarrow> string" where
  "hex2 b = [lowerhex ! (b div 16 mod 16), lowerhex ! (b mod 16)]"

definition hex4 :: "nat \<Rightarrow> string" where
  "hex4 r = hex2 (r div 4096 * 16 + r div 256 mod 16) @ hex2 (r div 16 mod 16 * 16 + r mod 16)"

definition appendEscapedRune :: "(nat \<Rightarrow> bool) \<Rightarrow> nat \<Rightarrow> string" where
  "appendEscapedRune tbl r =
     (if r = 0x22 \<or> r = 0x5C then [CHR 0x5C, char_of r]
      else if IsPrint tbl r then AppendRune r
      else if r = 0x07 then [CHR 0x5C, CHR ''a'']
      else if r = 0x08 then [CHR 0x5C, CHR ''b'']
      else if r = 0x0C then [CHR 0x5C, CHR ''f'']
      else if r = 0x0A then [CHR 0x5C, CHR ''n'']
      else if r = 0x0D then [CHR 0x5C, CHR ''r'']
      else if r = 0x09 then [CHR 0x5C, CHR ''t'']
      else if r = 0x0B then [CHR 0x5C, CHR ''v'']
      else if r < 0x20 \<or> r = 0x7F then [CHR 0x5C, CHR ''x''] @ hex2 r
      else if \<not> ValidRune r then [CHR 0x5C, CHR ''u''] @ hex4 RuneError
      else if r < 0x10000 then [CHR 0x5C, CHR ''u''] @ hex4 r
      else [CHR 0x5C, CHR ''U''] @ hex4 (r div 65536) @ hex4 (r mod 65536))"

text \<open>
  The loop of \<^verbatim>\<open>appendQuotedWith\<close> over the string, without the enclosing quotes.
  \<open>frontRune\<close> is the rune at the front of a string that is not empty and its width:
  \<^verbatim>\<open>rune(s[0])\<close> and 1 for an ASCII byte, else what the decoder finds.
\<close>

definition frontRune :: "string \<Rightarrow> nat \<times> nat" where
  "frontRune s = (if byte (hd s) \<ge> 0x80 then DecodeRuneInString s else (byte (hd s), 1))"

fun quoteBody :: "(nat \<Rightarrow> bool) \<Rightarrow> string \<Rightarrow> string" where
  "quoteBody tbl [] = []"
| "quoteBody tbl (c # cs) =
     (let r = fst (frontRune (c # cs)); width = snd (frontRune (c # cs)) in
      if width = 1 \<and> r = RuneError then
        [CHR 0x5C, CHR ''x''] @ hex2 (byte c) @ quoteBody tbl cs
      else appendEscapedRune tbl r @ quoteBody tbl (drop (width - 1) cs))"

definition Quote :: "(nat \<Rightarrow> bool) \<Rightarrow> string \<Rightarrow> string" where
  "Quote tbl s = [CHR 0x22] @ quoteBody tbl s @ [CHR 0x22]"

section \<open>Requests, the response writer and the process\<close>

text \<open>The fields of \<^verbatim>\<open>*http.Request\<close> that the program reads; \<open>URLPath\<close> is \<^verbatim>\<open>r.URL.Path\<close>.\<close>

record request =
  Method :: string
  RemoteAddr :: string
  URLPath :: string

text \<open>
  The calls a handler makes on its \<^verbatim>\<open>http.ResponseWriter\<close> are kept in order. By the
  contract of the interface the first \<^verbatim>\<open>WriteHeader\<close> with a final status fixes the status
  of the response, a \<^verbatim>\<open>Write\<close> before any \<^verbatim>\<open>WriteHeader\<close> sends status 200 first, later
  \<^verbatim>\<open>WriteHeader\<close> calls change nothing, and a handler that returns without writing gets
  an empty response of status 200. Informational statuses (1xx other than 101) do not fix
  the status.
\<close>

datatype wcall = WriteHeader nat | Write string

fun status_sent :: "wcall list \<Rightarrow> nat" where
  "status_sent [] = 200"
| "status_sent (WriteHeader code # cs) =
     (if 100 \<le> code \<and> code \<le> 199 \<and> code \<noteq> 101 then status_sent cs else code)"
| "status_sent (Write bs # cs) = 200"

text \<open>
  The bytes that the handler hands to \<^verbatim>\<open>Write\<close>, in order, and the body that the server
  of \<^verbatim>\<open>net/http\<close> sends of them. The server sends no body in answer to a request of method
  \<^verbatim>\<open>HEAD\<close> (it takes the bytes and drops them), and \<^verbatim>\<open>Write\<close> refuses the bytes when the
  status of the response allows no body (\<^verbatim>\<open>bodyAllowedForStatus\<close>: 1xx, 204 and 304);
  otherwise the body is the bytes of all \<^verbatim>\<open>Write\<close> calls. The program sets no
  \<^verbatim>\<open>Content-Length\<close>, so no write is cut by a declared length.
\<close>

definition bodyAllowedForStatus :: "nat \<Rightarrow> bool" where
  "bodyAllowedForStatus status =
     ((status < 100 \<or> 199 < status) \<and> status \<noteq> 204 \<and> status \<noteq> 304)"

fun bytes_written :: "wcall list \<Rightarrow> string" where
  "bytes_written [] = []"
| "bytes_written (WriteHeader code # cs) = bytes_written cs"
| "bytes_written (Write bs # cs) = bs @ bytes_written cs"

definition body_sent :: "string \<Rightarrow> wcall list \<Rightarrow> string" where
  "body_sent method calls =
     (if method = ''HEAD'' then []
      else if bodyAllowedForStatus (status_sent calls) then bytes_written calls
      else [])"

text \<open>
  An argument of a \<^verbatim>\<open>log.Printf\<close> call: a string, or a \<^verbatim>\<open>time.Duration\<close> in nanoseconds.
  A log line is kept as the format and the arguments of the call that produced it.
\<close>

datatype logArg = Str string | Dur int

text \<open>
  How a call ends: it returns, or it panics with a value, kept as the text that
  \<^verbatim>\<open>fmt.Sprintf("%v", v)\<close> gives for it. A panic always carries a value that is not nil
  (\<^verbatim>\<open>panic(nil)\<close> raises a run-time error of its own since Go 1.21).
\<close>

datatype outcome = Returned | Panicked string

text \<open>
  The state a request runs in: the lines printed on standard output, the lines given to
  the logger, the calls made on the response writer of the request, the latest reading of
  the clock, and what the clock will show at its following readings: the wall clock, and
  the nanoseconds by which the monotonic clock has advanced since the reading before.
\<close>

record Clock =
  wall :: Time
  ahead :: "(Time \<times> nat) list"

record world =
  stdout :: "string list"
  logged :: "(string \<times> logArg list) list"
  written :: "wcall list"
  clock :: Clock

text \<open>
  An \<^verbatim>\<open>http.Handler\<close>, by its \<^verbatim>\<open>ServeHTTP\<close>: it is given the request and the state, and
  returns or panics in a new state. The request is passed by value: a handler that changes
  the request of its caller is not modelled.
\<close>

type_synonym Handler = "request \<Rightarrow> world \<Rightarrow> outcome \<times> world"

definition Println :: "string \<Rightarrow> world \<Rightarrow> world" where
  "Println s w = w\<lparr>stdout := stdout w @ [s]\<rparr>"

definition w_WriteHeader :: "nat \<Rightarrow> world \<Rightarrow> world" where
  "w_WriteHeader code w = w\<lparr>written := written w @ [WriteHeader code]\<rparr>"

definition w_Write :: "string \<Rightarrow> world \<Rightarrow> world" where
  "w_Write bs w = w\<lparr>written := written w @ [Write bs]\<rparr>"

text \<open>
  \<^verbatim>\<open>time.Now()\<close> reads the clock: the wall clock shows what the environment says, the
  monotonic reading grows by the given amount. With nothing ahead the clock stands.
\<close>

definition time_Now :: "world \<Rightarrow> Time \<times> world" where
  "time_Now w =
     (case ahead (clock w) of
        [] \<Rightarrow> (wall (clock w), w)
      | (t, d) # rest \<Rightarrow>
          (let t' = t\<lparr>monotonic := monotonic (wall (clock w)) + int d\<rparr>
           in (t', w\<lparr>clock := \<lparr>wall = t', ahead = rest\<rparr>\<rparr>)))"

text \<open>\<^verbatim>\<open>time.Since(start)\<close>: the monotonic reading now, less that of \<open>start\<close>.\<close>

definition time_Since :: "Time \<Rightarrow> world \<Rightarrow> int \<times> world" where
  "time_Since start w = (let (t, w') = time_Now w in (monotonic t - monotonic start, w'))"

text \<open>\<^verbatim>\<open>log.Printf\<close> on the standard logger: the line is recorded and the call returns.\<close>

definition log_Printf :: "string \<Rightarrow> logArg list \<Rightarrow> world \<Rightarrow> outcome \<times> world" where
  "log_Printf format args w = (Returned, w\<lparr>logged := logged w @ [(format, args)]\<rparr>)"

text \<open>
  The library functions on which the claims about faults and failed serialisation depend
  are parameters of the handlers: \<^verbatim>\<open>json.Marshal\<close>, \<^verbatim>\<open>log.Printf\<close> and the printable
  tables of \<^verbatim>\<open>strconv\<close>. The program runs with \<open>golib tbl\<close>, the library itself.
\<close>

record lib =
  Marshal :: "response \<Rightarrow> string + string"
  Printf :: "string \<Rightarrow> logArg list \<Rightarrow> world \<Rightarrow> outcome \<times> world"
  printable :: "nat \<Rightarrow> bool"

definition golib :: "(nat \<Rightarrow> bool) \<Rightarrow> lib" where
  "golib tbl = \<lparr>Marshal = json_Marshal, Printf = log_Printf, printable = tbl\<rparr>"

section \<open>The endpoint handler\<close>

text \<open>
  \<^verbatim>\<open>fmt.Sprintf(helloMsgTmpl, currentTime)\<close>: the template
  \<^verbatim>\<open>Hello, from service. Today is %s\<close> with the time in place of its verb.
\<close>

definition helloMsg :: "string \<Rightarrow> string" where
  "helloMsg currentTime = ''Hello, from service. Today is '' @ currentTime"

text \<open>
  The text of the error made by \<^verbatim>\<open>fmt.Errorf\<close> for a method that is not served. The
  format of the source is in Russian (in English: method %q is not supported); its two
  parts are given here as the bytes of their UTF-8 encoding.
\<close>

definition errPrefix :: string where
  "errPrefix =
     [CHR 0xD0, CHR 0xBC, CHR 0xD0, CHR 0xB5, CHR 0xD1, CHR 0x82, CHR 0xD0, CHR 0xBE,
      CHR 0xD0, CHR 0xB4, CHR '' '']"

definition errSuffix :: string where
  "errSuffix =
     [CHR '' '', CHR 0xD0, CHR 0xBD, CHR 0xD0, CHR 0xB5, CHR '' '', CHR 0xD0, CHR 0xBF,
      CHR 0xD0, CHR 0xBE, CHR 0xD0, CHR 0xB4, CHR 0xD0, CHR 0xB4, CHR 0xD0, CHR 0xB5,
      CHR 0xD1, CHR 0x80, CHR 0xD0, CHR 0xB6, CHR 0xD0, CHR 0xB8, CHR 0xD0, CHR 0xB2,
      CHR 0xD0, CHR 0xB0, CHR 0xD0, CHR 0xB5, CHR 0xD1, CHR 0x82, CHR 0xD1, CHR 0x81,
      CHR 0xD1, CHR 0x8F]"

definition methodError :: "(nat \<Rightarrow> bool) \<Rightarrow> string \<Rightarrow> string" where
  "methodError tbl m = errPrefix @ Quote tbl m @ errSuffix"

text \<open>The local variables of \<^verbatim>\<open>helloHandler\<close>; \<open>err = None\<close> is the nil error.\<close>

record helloVars =
  err :: "string option"
  status :: nat
  data :: string

text \<open>The deferred function of \<^verbatim>\<open>helloHandler\<close>, run when the handler leaves.\<close>

definition helloDeferred :: "lib \<Rightarrow> helloVars \<Rightarrow> world \<Rightarrow> helloVars \<times> world" where
  "helloDeferred L v w =
     (case err v of
        Some e \<Rightarrow>
          (let v' = (case Marshal L \<lparr>Data = [], Error = e\<rparr> of
                       Inr bs \<Rightarrow> v\<lparr>data := bs, err := None\<rparr>
                     | Inl e' \<Rightarrow> v\<lparr>data := [], err := Some e', status := 500\<rparr>)
           in (v', w_Write (data v') w))
      | None \<Rightarrow> (v, w_Write (data v) (w_WriteHeader 200 w)))"

text \<open>The \<^verbatim>\<open>switch\<close> on the method, up to the point where the handler leaves.\<close>

definition helloSwitch :: "lib \<Rightarrow> request \<Rightarrow> world \<Rightarrow> helloVars \<times> world" where
  "helloSwitch L r w =
     (let v = \<lparr>err = None, status = 0, data = []\<rparr> in
      if Method r = ''GET'' then
        (let (now, w') = time_Now w;
             currentTime = Format_RFC1123Z now in
         case Marshal L \<lparr>Data = helloMsg currentTime, Error = []\<rparr> of
           Inr bs \<Rightarrow> (v\<lparr>data := bs\<rparr>, w')
         | Inl e \<Rightarrow> (v\<lparr>err := Some e, status := 500\<rparr>, w'))
      else (v\<lparr>err := Some (methodError (printable L) (Method r)), status := 501\<rparr>, w))"

text \<open>The variables and the state when \<^verbatim>\<open>helloHandler\<close> has returned.\<close>

definition helloRun :: "lib \<Rightarrow> request \<Rightarrow> world \<Rightarrow> helloVars \<times> world" where
  "helloRun L r w =
     (let (v, w') = helloSwitch L r (Println ''hello handler'' w) in helloDeferred L v w')"

definition helloHandler :: "lib \<Rightarrow> Handler" where
  "helloHandler L r w = (Returned, snd (helloRun L r w))"

section \<open>The middlewares\<close>

text \<open>
  \<^verbatim>\<open>recovery(next)\<close>. The deferred function runs when \<open>next\<close> has returned or panicked;
  \<^verbatim>\<open>recover()\<close> gives the value of the panic and stops it. A panic of the logging call inside
  the deferred function leaves the middleware.
\<close>

definition recovery :: "lib \<Rightarrow> Handler \<Rightarrow> Handler" where
  "recovery L next r w =
     (let (out, w1) = next r (Println ''panic middleware'' w);
          w2 = Println ''panic middleware defer'' w1 in
      case out of
        Returned \<Rightarrow> (Returned, w2)
      | Panicked v \<Rightarrow>
          (let data = (case Marshal L \<lparr>Data = [], Error = v\<rparr> of Inr bs \<Rightarrow> bs | Inl e \<Rightarrow> []);
               w3 = w_Write data (w_WriteHeader 500 w2)
           in Printf L ''panic: {method: %s, ip: %s, url: %s}''
                [Str (Method r), Str (RemoteAddr r), Str (URLPath r)] w3))"

text \<open>\<^verbatim>\<open>accessLog(next)\<close>. Nothing is deferred: a panic of \<open>next\<close> passes through.\<close>

definition accessLog :: "lib \<Rightarrow> Handler \<Rightarrow> Handler" where
  "accessLog L next r w =
     (let (start, w1) = time_Now (Println ''access_log middleware'' w);
          (out, w2) = next r w1 in
      case out of
        Panicked v \<Rightarrow> (Panicked v, w2)
      | Returned \<Rightarrow>
          (let (elapsed, w3) = time_Since start w2
           in Printf L ''access_log: {method: %s, ip: %s, url: %s, time: %s}''
                [Str (Method r), Str (RemoteAddr r), Str (URLPath r), Dur elapsed] w3))"

section \<open>The composition root\<close>

text \<open>
  The \<^verbatim>\<open>ServeMux\<close> of \<^verbatim>\<open>main\<close> has the one pattern \<^verbatim>\<open>/hello\<close>, which matches that path
  alone. What the multiplexer does with any other path (not found, redirection) is the
  library's and is the parameter \<open>other\<close>.
\<close>

definition mux :: "lib \<Rightarrow> Handler \<Rightarrow> Handler" where
  "mux L other r w = (if URLPath r = ''/hello'' then helloHandler L r w else other r w)"

text \<open>
  The two assignments of \<^verbatim>\<open>main\<close>: \<^verbatim>\<open>handler := accessLog(mux)\<close>, then
  \<^verbatim>\<open>handler = recovery(handler)\<close>. \<open>chain\<close> is the wrapping alone, around any handler.
\<close>

definition chain :: "lib \<Rightarrow> Handler \<Rightarrow> Handler" where
  "chain L route = (let handler = accessLog L route; handler = recovery L handler in handler)"

definition handler :: "lib \<Rightarrow> Handler \<Rightarrow> Handler" where
  "handler L other = chain L (mux L other)"

section \<open>Decoding the envelope (\<^verbatim>\<open>encoding/json\<close>)\<close>

text \<open>
  The value of a hexadecimal digit, as \<^verbatim>\<open>getu4\<close> reads it; \<open>None\<close> for any other byte.
\<close>

definition hexval :: "char \<Rightarrow> nat option" where
  "hexval c =
     (let b = byte c in
      if 0x30 \<le> b \<and> b \<le> 0x39 then Some (b - 0x30)
      else if 0x61 \<le> b \<and> b \<le> 0x66 then Some (b - 0x61 + 10)
      else if 0x41 \<le> b \<and> b \<le> 0x46 then Some (b - 0x41 + 10)
      else None)"

text \<open>
  \<^verbatim>\<open>getu4\<close>: the number written by the four hexadecimal digits of an escape \<^verbatim>\<open>\uXXXX\<close> at
  the front of the text; \<open>None\<close> is its result \<^verbatim>\<open>-1\<close>.
\<close>

definition getu4 :: "string \<Rightarrow> nat option" where
  "getu4 s =
     (if 6 \<le> length s \<and> s ! 0 = CHR 0x5C \<and> s ! 1 = CHR ''u'' then
        (case (hexval (s ! 2), hexval (s ! 3), hexval (s ! 4), hexval (s ! 5)) of
           (Some a, Some b, Some c, Some d) \<Rightarrow> Some (((a * 16 + b) * 16 + c) * 16 + d)
         | _ \<Rightarrow> None)
      else None)"

text \<open>
  \<^verbatim>\<open>utf16.DecodeRune\<close>: the rune of a surrogate pair, U+FFFD when the two are no pair.
\<close>

definition utf16_DecodeRune :: "nat \<Rightarrow> nat option \<Rightarrow> nat" where
  "utf16_DecodeRune r1 r2 =
     (case r2 of
        None \<Rightarrow> RuneError
      | Some r \<Rightarrow>
          if 0xD800 \<le> r1 \<and> r1 < 0xDC00 \<and> 0xDC00 \<le> r \<and> r < 0xE000
          then (r1 - 0xD800) * 1024 + (r - 0xDC00) + 0x10000
          else RuneError)"

text \<open>
  The case \<^verbatim>\<open>'u'\<close> of \<^verbatim>\<open>unquoteBytes\<close>: the bytes that the escape at the front stands for and
  the number of bytes of text it takes, twelve for a surrogate pair and six otherwise; half
  a pair gives U+FFFD.
\<close>

definition unicodeEscape :: "string \<Rightarrow> (string \<times> nat) option" where
  "unicodeEscape s =
     (case getu4 s of
        None \<Rightarrow> None
      | Some rr \<Rightarrow>
          if 0xD800 \<le> rr \<and> rr < 0xE000 then
            (let dec = utf16_DecodeRune rr (getu4 (drop 6 s)) in
             if dec = RuneError then Some (AppendRune RuneError, 6) else Some (AppendRune dec, 12))
          else Some (AppendRune rr, 6))"

text \<open>The byte that a one-letter escape stands for.\<close>

definition simpleEscape :: "char \<Rightarrow> char option" where
  "simpleEscape e =
     (if e = CHR 0x22 \<or> e = CHR 0x5C \<or> e = CHR ''/'' \<or> e = CHR 0x27 then Some e
      else if e = CHR ''b'' then Some (CHR 0x08)
      else if e = CHR ''f'' then Some (CHR 0x0C)
      else if e = CHR ''n'' then Some (CHR 0x0A)
      else if e = CHR ''r'' then Some (CHR 0x0D)
      else if e = CHR ''t'' then Some (CHR 0x09)
      else None)"

text \<open>
  The loop of \<^verbatim>\<open>unquoteBytes\<close> over the text between the quotes of a string literal: escapes
  are replaced, a quote or a control character is refused, an ASCII byte is copied, and any
  other rune is decoded and encoded again, which turns an invalid byte into U+FFFD.
\<close>

fun unquoteBody :: "string \<Rightarrow> string option" where
  "unquoteBody [] = Some []"
| "unquoteBody (c # cs) =
     (if c = CHR 0x5C then
        (case cs of
           [] \<Rightarrow> None
         | e # rest \<Rightarrow>
             if e = CHR ''u'' then
               (case unicodeEscape (c # cs) of
                  None \<Rightarrow> None
                | Some (bs, n) \<Rightarrow> map_option ((@) bs) (unquoteBody (drop (n - 1) cs)))
             else
               (case simpleEscape e of
                  None \<Rightarrow> None
                | Some d \<Rightarrow> map_option ((#) d) (unquoteBody rest)))
      else if c = CHR 0x22 \<or> byte c < 0x20 then None
      else if byte c < 0x80 then map_option ((#) c) (unquoteBody cs)
      else
        map_option ((@) (AppendRune (fst (DecodeRuneInString (c # cs)))))
          (unquoteBody (drop (snd (DecodeRuneInString (c # cs)) - 1) cs)))"

text \<open>
  The scanner of \<^verbatim>\<open>encoding/json\<close> inside a string literal: after a backslash it admits
  \<^verbatim>\<open>b f n r t \ / "\<close> and \<^verbatim>\<open>u\<close> with four hexadecimal digits; a control character ends the
  scan with an error and the first quote that is not escaped ends the literal.
  \<open>scanString\<close> is given the text after the opening quote and returns the text of the
  literal and what follows its closing quote.
\<close>

definition validEscape :: "char \<Rightarrow> string \<Rightarrow> bool" where
  "validEscape e rest =
     (if e = CHR ''u'' then 4 \<le> length rest \<and> list_all (\<lambda>h. hexval h \<noteq> None) (take 4 rest)
      else e = CHR ''b'' \<or> e = CHR ''f'' \<or> e = CHR ''n'' \<or> e = CHR ''r'' \<or> e = CHR ''t''
           \<or> e = CHR 0x5C \<or> e = CHR ''/'' \<or> e = CHR 0x22)"

fun scanString :: "string \<Rightarrow> (string \<times> string) option" where
  "scanString [] = None"
| "scanString (c # cs) =
     (if c = CHR 0x22 then Some ([], cs)
      else if c = CHR 0x5C then
        (case cs of
           [] \<Rightarrow> None
         | e # rest \<Rightarrow>
             if validEscape e rest
             then map_option (\<lambda>(lit, after). (c # e # lit, after)) (scanString rest)
             else None)
      else if byte c < 0x20 then None
      else map_option (\<lambda>(lit, after). (c # lit, after)) (scanString cs))"

text \<open>A string literal at the front of the text: its value and the text after it.\<close>

definition stringLit :: "string \<Rightarrow> (string \<times> string) option" where
  "stringLit s =
     (case s of
        [] \<Rightarrow> None
      | q # t \<Rightarrow>
          if q = CHR 0x22 then
            (case scanString t of
               None \<Rightarrow> None
             | Some (lit, after) \<Rightarrow> map_option (\<lambda>v. (v, after)) (unquoteBody lit))
          else None)"

text \<open>White space between the tokens: space, tab, carriage return, newline.\<close>

definition isSpace :: "char \<Rightarrow> bool" where
  "isSpace c \<longleftrightarrow> c = CHR '' '' \<or> c = CHR 0x09 \<or> c = CHR 0x0D \<or> c = CHR 0x0A"

definition skipSpace :: "string \<Rightarrow> string" where
  "skipSpace s = dropWhile isSpace s"

text \<open>
  The member of an object is stored in the field whose tag names it. A member under any
  other name is outside this model (the library matches it without regard to case, or
  skips it), and so is a value that is not a string: the result is \<open>None\<close> there, as it
  is for a malformed text.
\<close>

definition storeField :: "string \<Rightarrow> string \<Rightarrow> response \<Rightarrow> response option" where
  "storeField key val v =
     (if key = ''data'' then Some (v\<lparr>Data := val\<rparr>)
      else if key = ''error'' then Some (v\<lparr>Error := val\<rparr>)
      else None)"

text \<open>
  The members of an object, from its first key on: a key, a colon, a string, and then a
  comma and the next member, or the closing brace, after which only white space may
  follow.
\<close>

function objectMembers :: "string \<Rightarrow> response \<Rightarrow> response option" where
  "objectMembers s v =
     (case stringLit s of
        None \<Rightarrow> None
      | Some (key, s1) \<Rightarrow>
          (case skipSpace s1 of
             [] \<Rightarrow> None
           | colon # s2 \<Rightarrow>
               if colon = CHR '':'' then
                 (case stringLit (skipSpace s2) of
                    None \<Rightarrow> None
                  | Some (val, s3) \<Rightarrow>
                      (case storeField key val v of
                         None \<Rightarrow> None
                       | Some v' \<Rightarrow>
                           (case skipSpace s3 of
                              [] \<Rightarrow> None
                            | sep # s4 \<Rightarrow>
                                if sep = CHR '','' then objectMembers (skipSpace s4) v'
                                else if sep = CHR ''}'' \<and> skipSpace s4 = [] then Some v'
                                else None)))
               else None))"
  by pat_completeness auto

text \<open>
  \<^verbatim>\<open>json.Unmarshal(text, &v)\<close> with \<open>v\<close> a fresh \<^verbatim>\<open>response\<close>: a field without a member keeps
  its zero value, the empty string.
\<close>

definition Unmarshal :: "string \<Rightarrow> response option" where
  "Unmarshal text =
     (case skipSpace text of
        [] \<Rightarrow> None
      | brace # s1 \<Rightarrow>
          if brace = CHR ''{'' then
            (case skipSpace s1 of
               [] \<Rightarrow> None
             | c # s2 \<Rightarrow>
                 if c = CHR ''}'' then (if skipSpace s2 = [] then Some \<lparr>Data = [], Error = []\<rparr> else None)
                 else objectMembers (c # s2) \<lparr>Data = [], Error = []\<rparr>)
          else None)"

text \<open>\<^verbatim>\<open>utf8.ValidString\<close>: the decoder meets no invalid byte.\<close>

fun ValidString :: "string \<Rightarrow> bool" where
  "ValidString [] = True"
| "ValidString (c # cs) =
     (if byte c < 0x80 then ValidString cs
      else \<not> (fst (DecodeRuneInString (c # cs)) = RuneError \<and> snd (DecodeRuneInString (c # cs)) = 1)
           \<and> ValidString (drop (snd (DecodeRuneInString (c # cs)) - 1) cs))"

section \<open>Methods the server admits\<close>

text \<open>
  \<^verbatim>\<open>net/http\<close> reads a request only if its method is a token (\<^verbatim>\<open>validMethod\<close>): one or more
  of the letters, the digits and the marks \<^verbatim>\<open>!#$%&'*+-.^_`|~\<close>. A handler sees no other
  method.
\<close>

definition isTokenByte :: "char \<Rightarrow> bool" where
  "isTokenByte c \<longleftrightarrow>
     (let b = byte c in
      (0x30 \<le> b \<and> b \<le> 0x39) \<or> (0x41 \<le> b \<and> b \<le> 0x5A) \<or> (0x61 \<le> b \<and> b \<le> 0x7A)
      \<or> b \<in> {0x21, 0x23, 0x24, 0x25, 0x26, 0x27, 0x2A, 0x2B, 0x2D, 0x2E, 0x5E, 0x5F, 0x60, 0x7C, 0x7E})"

definition validMethod :: "string \<Rightarrow> bool" where
  "validMethod m \<longleftrightarrow> m \<noteq> [] \<and> list_all isTokenByte m"

section \<open>The composition as the specification words it\<close>

text \<open>
  The specification describes the chain with the access log outermost and the recovery
  inside it. This is that reading, to be compared with \<^const>\<open>chain\<close>.
\<close>

definition spec_chain :: "lib \<Rightarrow> Handler \<Rightarrow> Handler" where
  "spec_chain L route = accessLog L (recovery L route)"

section \<open>Sample requests, states and handlers\<close>

definition time0 :: Time where
  "time0 = \<lparr>Year = 2006, Mon = January, Day = 2, Hour = 15, Minute = 4, Second = 5,
     Wday = Monday, offset = -25200, monotonic = 0\<rparr>"

text \<open>
  A fresh response writer, nothing printed or logged, and a clock that advances by one,
  two and three microseconds at its next three readings.
\<close>

definition world0 :: world where
  "world0 = \<lparr>stdout = [], logged = [], written = [],
     clock = \<lparr>wall = time0,
               ahead = [(time0, 1000), (time0\<lparr>Second := 6\<rparr>, 2000), (time0\<lparr>Second := 7\<rparr>, 3000)]\<rparr>\<rparr>"

definition getHello :: request where
  "getHello = \<lparr>Method = ''GET'', RemoteAddr = ''10.0.0.7:4242'', URLPath = ''/hello''\<rparr>"

definition postHello :: request where
  "postHello = \<lparr>Method = ''POST'', RemoteAddr = ''10.0.0.7:4242'', URLPath = ''/hello''\<rparr>"

definition headHello :: request where
  "headHello = \<lparr>Method = ''HEAD'', RemoteAddr = ''10.0.0.7:4242'', URLPath = ''/hello''\<rparr>"

text \<open>A table that lists no rune above U+00FF as printable.\<close>

definition noTable :: "nat \<Rightarrow> bool" where
  "noTable r = False"

text \<open>A handler that panics at once, and one that panics after it has written its response.\<close>

definition boom :: Handler where
  "boom r w = (Panicked ''boom'', w)"

definition writeThenPanic :: Handler where
  "writeThenPanic r w = (Panicked ''boom'', w_Write ''ok'' (w_WriteHeader 200 w))"

text \<open>A library whose logger panics on the access-log line and logs every other line.\<close>

definition sinkFails :: lib where
  "sinkFails =
     \<lparr>Marshal = json_Marshal,
      Printf = (\<lambda>format args w.
         if format = ''access_log: {method: %s, ip: %s, url: %s, time: %s}''
         then (Panicked ''sink failed'', w) else log_Printf format args w),
      printable = noTable\<rparr>"

text \<open>A library whose \<^verbatim>\<open>json.Marshal\<close> fails on every value.\<close>

definition marshalFails :: lib where
  "marshalFails =
     \<lparr>Marshal = (\<lambda>v. Inl ''json: unsupported value''), Printf = log_Printf, printable = noTable\<rparr>"

text \<open>An envelope whose error field is one byte that is no UTF-8.\<close>

definition replaced :: response where
  "replaced = \<lparr>Data = [], Error = [CHR 0xFF]\<rparr>"

section \<open>Auxiliary facts\<close>

lemmas prims = Println_def w_WriteHeader_def w_Write_def time_Now_def time_Since_def log_Printf_def

lemmas run = mux_def helloHandler_def helloRun_def helloSwitch_def helloDeferred_def
  recovery_def accessLog_def golib_def prims json_Marshal_def Let_def split_def

lemma chain_eq: "chain L route = recovery L (accessLog L route)"
  by (simp add: chain_def Let_def)

lemma structEncode_error:
  "v \<noteq> [] \<Longrightarrow> structEncode \<lparr>Data = [], Error = v\<rparr> = ''{\"error\":'' @ appendString v @ ''}''"
  by (simp add: structEncode_def structFields_def appendString_def htmlSafeSet_def byte_def)

lemma structEncode_data:
  "d \<noteq> [] \<Longrightarrow> structEncode \<lparr>Data = d, Error = []\<rparr> = ''{\"data\":'' @ appendString d @ ''}''"
  by (simp add: structEncode_def structFields_def appendString_def htmlSafeSet_def byte_def)

lemma recovery_Returned:
  "next r (Println ''panic middleware'' w) = (Returned, w1) \<Longrightarrow>
   recovery L next r w = (Returned, Println ''panic middleware defer'' w1)"
  by (simp add: recovery_def)

lemma recovery_Panicked:
  "next r (Println ''panic middleware'' w) = (Panicked v, w1) \<Longrightarrow>
   recovery L next r w =
     Printf L ''panic: {method: %s, ip: %s, url: %s}''
       [Str (Method r), Str (RemoteAddr r), Str (URLPath r)]
       (w_Write (case Marshal L \<lparr>Data = [], Error = v\<rparr> of Inr bs \<Rightarrow> bs | Inl e \<Rightarrow> [])
          (w_WriteHeader 500 (Println ''panic middleware defer'' w1)))"
  by (simp add: recovery_def)

lemma time_Now_keeps:
  "time_Now w = (t, w') \<Longrightarrow>
     logged w' = logged w \<and> written w' = written w \<and> stdout w' = stdout w"
  by (auto simp add: time_Now_def Let_def split: list.splits prod.splits)

lemma time_Now_mono:
  "time_Now w = (t, w') \<Longrightarrow>
     monotonic t = monotonic (wall (clock w')) \<and> monotonic (wall (clock w)) \<le> monotonic t"
  by (auto simp add: time_Now_def Let_def split: list.splits prod.splits)

lemma time_Since_mono:
  "time_Since start w = (d, w') \<Longrightarrow> monotonic start \<le> monotonic (wall (clock w)) \<Longrightarrow> 0 \<le> d"
  by (auto simp add: time_Since_def Let_def dest!: time_Now_mono split: prod.splits)

section \<open>The claims\<close>

subsection \<open>Composition order\<close>

lemma helloHandler_stdout:
  "stdout (snd (helloHandler (golib tbl) r w)) = stdout w @ [''hello handler'']"
proof -
  obtain v0 w1 where s: "helloSwitch (golib tbl) r (Println ''hello handler'' w) = (v0, w1)"
    by (cases "helloSwitch (golib tbl) r (Println ''hello handler'' w)")
  have 1: "stdout w1 = stdout w @ [''hello handler'']"
    using s
    by (auto simp add: helloSwitch_def Let_def Println_def split: if_splits prod.splits sum.splits
          dest: time_Now_keeps)
  have 2: "stdout (snd (helloDeferred (golib tbl) v0 w1)) = stdout w1"
    by (simp add: helloDeferred_def Let_def w_Write_def w_WriteHeader_def golib_def json_Marshal_def
          split: option.splits)
  show ?thesis
    using s 1 2 by (simp add: helloHandler_def helloRun_def)
qed

lemma handler_stdout:
  assumes "URLPath r = ''/hello''"
  shows "stdout (snd (handler (golib tbl) other r w))
           = stdout w @ [''panic middleware'', ''access_log middleware'', ''hello handler'',
                         ''panic middleware defer'']"
proof -
  obtain start wa where n: "time_Now (Println ''access_log middleware'' (Println ''panic middleware'' w)) = (start, wa)"
    by (cases "time_Now (Println ''access_log middleware'' (Println ''panic middleware'' w))")
  have a: "stdout wa = stdout w @ [''panic middleware'', ''access_log middleware'']"
    using time_Now_keeps [OF n] by (simp add: Println_def)
  obtain w2 where m: "mux (golib tbl) other r wa = (Returned, w2)"
    using assms by (simp add: mux_def helloHandler_def)
  have b: "stdout w2 = stdout wa @ [''hello handler'']"
    using m assms helloHandler_stdout [of tbl r wa] by (simp add: mux_def)
  obtain e w3 where t: "time_Since start w2 = (e, w3)"
    by (cases "time_Since start w2")
  have c: "stdout w3 = stdout w2"
    using t by (auto simp add: time_Since_def split: prod.splits dest: time_Now_keeps)
  have al: "accessLog (golib tbl) (mux (golib tbl) other) r (Println ''panic middleware'' w) =
             (Returned,
              w3\<lparr>logged := logged w3
                    @ [(''access_log: {method: %s, ip: %s, url: %s, time: %s}'',
                        [Str (Method r), Str (RemoteAddr r), Str (URLPath r), Dur e])]\<rparr>)"
    using n m t by (simp add: accessLog_def golib_def log_Printf_def)
  show ?thesis
    using recovery_Returned [of "accessLog (golib tbl) (mux (golib tbl) other)" r w _ "golib tbl", OF al]
      a b c
    by (simp add: handler_def chain_eq Println_def)
qed

text \<open>
  C1 (as amended). The claim has the access log outermost: the handler bound to the
  listener would be accessLog(recovery(route dispatch)). \<^verbatim>\<open>main\<close> wraps the multiplexer in
  the access log first and wraps the result in the recovery, so the one chain it builds has
  the recovery outermost, the access log inside it and route dispatch innermost: the
  handler bound to the listener is recovery(accessLog(mux)). Each layer prints its name
  when it is entered: on a request to \<^verbatim>\<open>/hello\<close> the recovery is entered first and left last.
\<close>

theorem handler_recovery_outermost:
  "handler L other = recovery L (accessLog L (mux L other))
   \<and> (URLPath r = ''/hello'' \<longrightarrow>
        stdout (snd (handler (golib tbl) other r w))
          = stdout w @ [''panic middleware'', ''access_log middleware'', ''hello handler'',
                        ''panic middleware defer''])"
  by (simp add: handler_stdout) (simp add: handler_def chain_eq)

theorem handler_recovery_outermost_witness:
  "handler (golib noTable) boom = recovery (golib noTable) (accessLog (golib noTable) (mux (golib noTable) boom))
   \<and> stdout (snd (handler (golib noTable) boom postHello world0))
       = [''panic middleware'', ''access_log middleware'', ''hello handler'', ''panic middleware defer'']"
proof -
  note th = handler_recovery_outermost [of "golib noTable" boom postHello noTable world0]
  have p: "URLPath postHello = ''/hello''"
    by (simp add: postHello_def)
  have w: "stdout world0 = []"
    by (simp add: world0_def)
  from th have e: "handler (golib noTable) boom
      = recovery (golib noTable) (accessLog (golib noTable) (mux (golib noTable) boom))"
    by (rule conjunct1)
  from th p have s: "stdout (snd (handler (golib noTable) boom postHello world0))
      = stdout world0 @ [''panic middleware'', ''access_log middleware'', ''hello handler'',
                         ''panic middleware defer'']"
    by blast
  show ?thesis
    by (rule conjI, rule e) (simp only: s w append_Nil)
qed

text \<open>
  On \<^verbatim>\<open>GET /hello\<close> the chain of \<^verbatim>\<open>main\<close> and the chain of the claim differ: each layer
  prints its name when it is entered, and the recovery prints first.
\<close>

theorem handler_not_spec_chain:
  "handler (golib noTable) boom getHello world0
     \<noteq> spec_chain (golib noTable) (mux (golib noTable) boom) getHello world0
   \<and> stdout (snd (handler (golib noTable) boom getHello world0))
       = [''panic middleware'', ''access_log middleware'', ''hello handler'',
          ''panic middleware defer'']
   \<and> stdout (snd (spec_chain (golib noTable) (mux (golib noTable) boom) getHello world0))
       = [''access_log middleware'', ''panic middleware'', ''hello handler'',
          ''panic middleware defer'']"
  by (simp add: handler_def chain_eq spec_chain_def run world0_def getHello_def)

subsection \<open>The recovery middleware\<close>



text \<open>
  C8 (as amended). The claim says that the response is written either by the wrapped
  handler or by the interception path, never by both. The interception path runs exactly
  when the wrapped handler panics, whatever the handler has written by then: when the
  handler returns, the middleware writes nothing and the response is the handler's; when the
  handler panics, the middleware calls \<^verbatim>\<open>WriteHeader(500)\<close> and \<^verbatim>\<open>Write\<close> with the error
  envelope after the calls the handler had made. So one response is written when the
  handler returns, or panics before it writes; a handler that writes and then panics leaves
  its own output followed by the envelope of the interception.
\<close>

theorem recovery_writes_iff_panic:
  assumes "H r (Println ''panic middleware'' w) = (out, w1)"
  shows "fst (recovery (golib tbl) H r w) = Returned
       \<and> written (snd (recovery (golib tbl) H r w)) =
           written w1 @
             (case out of
                Returned \<Rightarrow> []
              | Panicked v \<Rightarrow> [WriteHeader 500, Write (structEncode \<lparr>Data = [], Error = v\<rparr>)])"
  using assms
  by (cases out) (simp_all add: recovery_Returned recovery_Panicked golib_def json_Marshal_def prims)

theorem recovery_writes_iff_panic_witness:
  "fst (recovery (golib noTable) (helloHandler (golib noTable)) postHello world0) = Returned
   \<and> written (snd (recovery (golib noTable) (helloHandler (golib noTable)) postHello world0))
       = written (snd (helloHandler (golib noTable) postHello (Println ''panic middleware'' world0)))
   \<and> fst (recovery (golib noTable) boom getHello world0) = Returned
   \<and> written (snd (recovery (golib noTable) boom getHello world0))
       = [WriteHeader 500, Write (structEncode \<lparr>Data = [], Error = ''boom''\<rparr>)]"
proof -
  have h1: "helloHandler (golib noTable) postHello (Println ''panic middleware'' world0)
              = (Returned, snd (helloHandler (golib noTable) postHello (Println ''panic middleware'' world0)))"
    by (simp add: helloHandler_def)
  have h2: "boom getHello (Println ''panic middleware'' world0)
              = (Panicked ''boom'', Println ''panic middleware'' world0)"
    by (simp add: boom_def)
  show ?thesis
    using recovery_writes_iff_panic
            [where H = "helloHandler (golib noTable)" and r = postHello and w = world0
               and tbl = noTable, OF h1]
          recovery_writes_iff_panic
            [where H = boom and r = getHello and w = world0 and tbl = noTable, OF h2]
    by (simp add: Println_def world0_def)
qed

text \<open>
  A handler that writes status 200 and a body and then panics: the calls of the handler
  and those of the interception are both on the response, which goes out with status 200
  and the two bodies one after the other.
\<close>

theorem recovery_both_write:
  "written (snd (writeThenPanic getHello (Println ''panic middleware'' world0)))
     = [WriteHeader 200, Write ''ok'']
   \<and> written (snd (recovery (golib noTable) writeThenPanic getHello world0))
     = [WriteHeader 200, Write ''ok'', WriteHeader 500, Write ''{\"error\":\"boom\"}'']
   \<and> status_sent (written (snd (recovery (golib noTable) writeThenPanic getHello world0))) = 200
   \<and> body_sent (Method getHello)
        (written (snd (recovery (golib noTable) writeThenPanic getHello world0)))
     = ''ok{\"error\":\"boom\"}''"
  by (simp add: run writeThenPanic_def world0_def getHello_def structEncode_error
        appendString_def htmlSafeSet_def byte_def body_sent_def bodyAllowedForStatus_def)


subsection \<open>The access-log middleware in the chain\<close>

text \<open>
  C2 (as amended). The claim promises one access-log line for every request, also when
  the inner handler panics and the panic is recovered. In the chain of \<^verbatim>\<open>main\<close> the access
  log is inside the recovery and logs after its handler has returned. So: for every request
  whose inner handler returns (with a success or an error envelope), the chain returns and
  exactly one access-log line is added, after everything the inner handler logged, with the
  method, the origin, the path and the time elapsed between the two readings of the clock;
  the elapsed time is not negative when the monotonic clock has not been set back
  meanwhile.
\<close>

theorem accessLog_one_line_when_returned:
  assumes "time_Now (Println ''access_log middleware'' (Println ''panic middleware'' w)) = (start, w1)"
    and "route r w1 = (Returned, w2)"
    and "time_Since start w2 = (elapsed, w3)"
  shows "chain (golib tbl) route r w =
           (Returned,
            w3\<lparr>logged := logged w2
                  @ [(''access_log: {method: %s, ip: %s, url: %s, time: %s}'',
                      [Str (Method r), Str (RemoteAddr r), Str (URLPath r), Dur elapsed])],
               stdout := stdout w3 @ [''panic middleware defer'']\<rparr>)
       \<and> (monotonic (wall (clock w1)) \<le> monotonic (wall (clock w2)) \<longrightarrow> 0 \<le> elapsed)"
proof -
  have l: "logged w3 = logged w2"
    using assms(3) by (auto simp add: time_Since_def dest: time_Now_keeps split: prod.splits)
  have a: "accessLog (golib tbl) route r (Println ''panic middleware'' w) =
             (Returned,
              w3\<lparr>logged := logged w2
                    @ [(''access_log: {method: %s, ip: %s, url: %s, time: %s}'',
                        [Str (Method r), Str (RemoteAddr r), Str (URLPath r), Dur elapsed])]\<rparr>)"
    using assms l by (simp add: accessLog_def golib_def log_Printf_def)
  have m: "monotonic start = monotonic (wall (clock w1))"
    using assms(1) by (simp add: time_Now_mono)
  show ?thesis
    using recovery_Returned [of "accessLog (golib tbl) route" r w _ "golib tbl", OF a]
      time_Since_mono [OF assms(3)] m
    by (simp add: chain_eq Println_def)
qed

theorem accessLog_one_line_when_returned_witness:
  "fst (chain (golib noTable) (mux (golib noTable) boom) getHello world0) = Returned
   \<and> logged (snd (chain (golib noTable) (mux (golib noTable) boom) getHello world0))
       = [(''access_log: {method: %s, ip: %s, url: %s, time: %s}'',
           [Str ''GET'', Str ''10.0.0.7:4242'', Str ''/hello'', Dur 5000])]"
proof -
  define S where "S = time_Now (Println ''access_log middleware'' (Println ''panic middleware'' world0))"
  define R where "R = mux (golib noTable) boom getHello (snd S)"
  define E where "E = time_Since (fst S) (snd R)"
  have 1: "time_Now (Println ''access_log middleware'' (Println ''panic middleware'' world0))
             = (fst S, snd S)"
    by (simp add: S_def)
  have 2: "mux (golib noTable) boom getHello (snd S) = (Returned, snd R)"
    by (simp add: R_def mux_def helloHandler_def getHello_def)
  have 3: "time_Since (fst S) (snd R) = (fst E, snd E)"
    by (simp add: E_def)
  have S: "S = (time0\<lparr>monotonic := 1000\<rparr>,
                \<lparr>stdout = [''panic middleware'', ''access_log middleware''], logged = [],
                   written = [],
                   clock = \<lparr>wall = time0\<lparr>monotonic := 1000\<rparr>,
                     ahead = [(time0\<lparr>Second := 6\<rparr>, 2000), (time0\<lparr>Second := 7\<rparr>, 3000)]\<rparr>\<rparr>)"
    by (simp add: S_def prims world0_def time0_def Let_def)
  have R: "logged (snd R) = [] \<and> clock (snd R)
             = \<lparr>wall = time0\<lparr>Second := 6, monotonic := 3000\<rparr>, ahead = [(time0\<lparr>Second := 7\<rparr>, 3000)]\<rparr>"
    by (simp add: R_def S run getHello_def time0_def)
  have E: "fst E = 5000"
    by (simp add: E_def R S time_Since_def time_Now_def Let_def split_def time0_def)
  show ?thesis
    using accessLog_one_line_when_returned
            [where route = "mux (golib noTable) boom" and r = getHello and w = world0
               and tbl = noTable, OF 1 2 3]
    by (simp add: E R getHello_def)
qed

text \<open>
  A route that panics: the recovery answers and logs the panic, and the chain emits no
  access-log line.
\<close>

theorem no_access_line_when_panicked:
  "chain (golib noTable) boom getHello world0 =
     (Returned,
      world0\<lparr>stdout := [''panic middleware'', ''access_log middleware'', ''panic middleware defer''],
         written := [WriteHeader 500, Write ''{\"error\":\"boom\"}''],
         logged := [(''panic: {method: %s, ip: %s, url: %s}'',
                       [Str ''GET'', Str ''10.0.0.7:4242'', Str ''/hello''])],
         clock := \<lparr>wall = time0\<lparr>monotonic := 1000\<rparr>,
                    ahead = [(time0\<lparr>Second := 6\<rparr>, 2000), (time0\<lparr>Second := 7\<rparr>, 3000)]\<rparr>\<rparr>)"
  by (simp add: chain_eq run boom_def world0_def getHello_def time0_def structEncode_error
        appendString_def htmlSafeSet_def byte_def)

text \<open>
  C7 (as amended). The claim says that a fault raised by the access-log middleware itself
  is caught by no layer. In the chain of \<^verbatim>\<open>main\<close> the recovery wraps the access log, so a
  panic of the access log's logging call, raised after the inner handler has returned, is
  intercepted by the recovery: the chain ends as the interception path does, with
  \<^verbatim>\<open>WriteHeader(500)\<close>, a \<^verbatim>\<open>Write\<close> of the error envelope and the logging of the panic line,
  and the panic leaves the chain only if that last logging call panics in its turn.
\<close>

theorem accessLog_fault_recovered:
  assumes "time_Now (Println ''access_log middleware'' (Println ''panic middleware'' w)) = (start, w1)"
    and "route r w1 = (Returned, w2)"
    and "time_Since start w2 = (elapsed, w3)"
    and "Printf L ''access_log: {method: %s, ip: %s, url: %s, time: %s}''
           [Str (Method r), Str (RemoteAddr r), Str (URLPath r), Dur elapsed] w3 = (Panicked v, w4)"
  shows "chain L route r w =
           Printf L ''panic: {method: %s, ip: %s, url: %s}''
             [Str (Method r), Str (RemoteAddr r), Str (URLPath r)]
             (w_Write (case Marshal L \<lparr>Data = [], Error = v\<rparr> of Inr bs \<Rightarrow> bs | Inl e \<Rightarrow> [])
                (w_WriteHeader 500 (Println ''panic middleware defer'' w4)))"
proof -
  have a: "accessLog L route r (Println ''panic middleware'' w) = (Panicked v, w4)"
    using assms by (simp add: accessLog_def)
  show ?thesis
    using recovery_Panicked [of "accessLog L route" r w v w4 L, OF a]
    by (simp add: chain_eq)
qed


theorem accessLog_fault_recovered_witness:
  "chain sinkFails (mux sinkFails boom) getHello world0 =
     (Returned,
      world0\<lparr>stdout := [''panic middleware'', ''access_log middleware'', ''hello handler'',
                       ''panic middleware defer''],
         written := [WriteHeader 200,
                     Write ''{\"data\":\"Hello, from service. Today is Mon, 02 Jan 2006 15:04:06 -0700\"}'',
                     WriteHeader 500, Write ''{\"error\":\"sink failed\"}''],
         logged := [(''panic: {method: %s, ip: %s, url: %s}'',
                       [Str ''GET'', Str ''10.0.0.7:4242'', Str ''/hello''])],
         clock := \<lparr>wall = time0\<lparr>Second := 7, monotonic := 6000\<rparr>, ahead = []\<rparr>\<rparr>)"
proof -
  define S where "S = time_Now (Println ''access_log middleware'' (Println ''panic middleware'' world0))"
  define R where "R = mux sinkFails boom getHello (snd S)"
  define E where "E = time_Since (fst S) (snd R)"
  have 1: "time_Now (Println ''access_log middleware'' (Println ''panic middleware'' world0))
             = (fst S, snd S)"
    by (simp add: S_def)
  have 2: "mux sinkFails boom getHello (snd S) = (Returned, snd R)"
    by (simp add: R_def mux_def helloHandler_def getHello_def)
  have 3: "time_Since (fst S) (snd R) = (fst E, snd E)"
    by (simp add: E_def)
  have 4: "Printf sinkFails ''access_log: {method: %s, ip: %s, url: %s, time: %s}''
             [Str (Method getHello), Str (RemoteAddr getHello), Str (URLPath getHello), Dur (fst E)]
             (snd E) = (Panicked ''sink failed'', snd E)"
    by (simp add: sinkFails_def)
  have S: "S = (time0\<lparr>monotonic := 1000\<rparr>,
                \<lparr>stdout = [''panic middleware'', ''access_log middleware''], logged = [],
                   written = [],
                   clock = \<lparr>wall = time0\<lparr>monotonic := 1000\<rparr>,
                     ahead = [(time0\<lparr>Second := 6\<rparr>, 2000), (time0\<lparr>Second := 7\<rparr>, 3000)]\<rparr>\<rparr>)"
    by (simp add: S_def prims world0_def time0_def Let_def)
  have f: "Format_RFC1123Z (time0\<lparr>Second := 6, monotonic := 3000\<rparr>) = ''Mon, 02 Jan 2006 15:04:06 -0700''"
    by (simp add: Format_RFC1123Z_def time0_def appendInt_def appendNumTZ_def decimal.simps)
  have m: "structEncode \<lparr>Data = helloMsg ''Mon, 02 Jan 2006 15:04:06 -0700'', Error = []\<rparr>
             = ''{\"data\":\"Hello, from service. Today is Mon, 02 Jan 2006 15:04:06 -0700\"}''"
    by (simp add: structEncode_data helloMsg_def appendString_def htmlSafeSet_def byte_def)
  have R: "snd R = \<lparr>stdout = [''panic middleware'', ''access_log middleware'', ''hello handler''],
                     logged = [],
                     written = [WriteHeader 200,
                       Write ''{\"data\":\"Hello, from service. Today is Mon, 02 Jan 2006 15:04:06 -0700\"}''],
                     clock = \<lparr>wall = time0\<lparr>Second := 6, monotonic := 3000\<rparr>,
                               ahead = [(time0\<lparr>Second := 7\<rparr>, 3000)]\<rparr>\<rparr>"
    unfolding R_def S
    by (simp add: mux_def helloHandler_def helloRun_def helloSwitch_def helloDeferred_def prims
          sinkFails_def json_Marshal_def Let_def getHello_def f m)
  have E: "snd E = (snd R)\<lparr>clock := \<lparr>wall = time0\<lparr>Second := 7, monotonic := 6000\<rparr>, ahead = []\<rparr>\<rparr>"
    by (simp add: E_def R S time_Since_def time_Now_def Let_def split_def time0_def)
  have e: "structEncode \<lparr>Data = [], Error = ''sink failed''\<rparr> = ''{\"error\":\"sink failed\"}''"
    by (simp add: structEncode_error appendString_def htmlSafeSet_def byte_def)
  show ?thesis
    using accessLog_fault_recovered
            [where route = "mux sinkFails boom" and r = getHello and w = world0 and L = sinkFails,
             OF 1 2 3 4]
    by (simp add: E R e sinkFails_def json_Marshal_def prims getHello_def world0_def)
qed

text \<open>
  With a logger that panics on the access-log line, \<^verbatim>\<open>GET /hello\<close> through the handler of
  \<^verbatim>\<open>main\<close> returns: the panic does not leave the chain, and the recovery has logged it.
\<close>

theorem accessLog_fault_does_not_escape:
  "fst (handler sinkFails boom getHello world0) = Returned
   \<and> logged (snd (handler sinkFails boom getHello world0))
       = [(''panic: {method: %s, ip: %s, url: %s}'',
           [Str ''GET'', Str ''10.0.0.7:4242'', Str ''/hello''])]"
  by (simp add: handler_def chain_eq run sinkFails_def world0_def getHello_def)

lemma helloSwitch_err:
  "helloSwitch L r w = (v0, w1) \<Longrightarrow> err v0 = Some e \<Longrightarrow>
     written w1 = written w \<and> (status v0 = 501 \<or> status v0 = 500)"
  by (auto simp add: helloSwitch_def Let_def split: if_splits prod.splits sum.splits
        dest: time_Now_keeps)

lemma helloSwitch_method:
  "Method r \<noteq> ''GET'' \<Longrightarrow>
     helloSwitch L r w =
       (\<lparr>err = Some (methodError (printable L) (Method r)), status = 501, data = []\<rparr>, w)"
  by (simp add: helloSwitch_def)

lemma helloSwitch_marshal:
  "isl (Marshal L \<lparr>Data = helloMsg (Format_RFC1123Z (fst (time_Now w))), Error = []\<rparr>) \<Longrightarrow>
     Method r = ''GET'' \<Longrightarrow> err (fst (helloSwitch L r w)) \<noteq> None"
  by (auto simp add: helloSwitch_def Let_def split_def isl_def)

lemma helloDeferred_err:
  "helloDeferred L v0 w1 = (v, w') \<Longrightarrow> err v0 = Some e \<Longrightarrow>
     written w' = written w1 @ [Write (data v)]
     \<and> (status v = status v0 \<or> status v = 500)
     \<and> (\<not> isl (Marshal L \<lparr>Data = [], Error = e\<rparr>) \<longrightarrow> status v = status v0)"
  by (auto simp add: helloDeferred_def Let_def w_Write_def split: sum.splits)

subsection \<open>The endpoint handler\<close>

text \<open>
  C4. When the handler leaves its \<^verbatim>\<open>switch\<close> through the unsupported-method path or through
  the serialisation-error path, the variable \<^verbatim>\<open>status\<close> holds 501 or 500 at the end, but the
  deferred function makes one call on the response writer, a \<^verbatim>\<open>Write\<close>, and no
  \<^verbatim>\<open>WriteHeader\<close>: on a fresh writer the status sent is 200. For an unsupported method whose
  error envelope is serialised the variable holds 501.
\<close>

theorem hello_status_never_applied:
  assumes "helloRun L r w = (v, w')"
    and "Method r \<noteq> ''GET''
         \<or> isl (Marshal L \<lparr>Data = helloMsg (Format_RFC1123Z (fst (time_Now (Println ''hello handler'' w)))),
                             Error = []\<rparr>)"
  shows "(status v = 501 \<or> status v = 500)
       \<and> written w' = written w @ [Write (data v)]
       \<and> (written w = [] \<longrightarrow> status_sent (written w') = 200)
       \<and> (Method r \<noteq> ''GET''
            \<and> \<not> isl (Marshal L \<lparr>Data = [], Error = methodError (printable L) (Method r)\<rparr>)
          \<longrightarrow> status v = 501)"
proof -
  obtain v0 w1 where s: "helloSwitch L r (Println ''hello handler'' w) = (v0, w1)"
    by (cases "helloSwitch L r (Println ''hello handler'' w)")
  have "err v0 \<noteq> None"
  proof (cases "Method r = ''GET''")
    case True
    then show ?thesis using assms(2) helloSwitch_marshal [of L "Println ''hello handler'' w" r] s
      by simp
  next
    case False
    then show ?thesis using s by (auto simp add: helloSwitch_method)
  qed
  then obtain e where e: "err v0 = Some e" by auto
  have d: "helloDeferred L v0 w1 = (v, w')"
    using assms(1) s by (simp add: helloRun_def)
  have w: "written w1 = written w"
    using helloSwitch_err [OF s e] by (simp add: Println_def)
  have m: "Method r \<noteq> ''GET'' \<Longrightarrow> e = methodError (printable L) (Method r) \<and> status v0 = 501"
    using s e by (auto simp add: helloSwitch_method)
  show ?thesis
    using helloSwitch_err [OF s e] helloDeferred_err [OF d e] w m by auto
qed

theorem hello_status_never_applied_witness:
  "status (fst (helloRun (golib noTable) postHello world0)) = 501
   \<and> written (snd (helloRun (golib noTable) postHello world0))
       = [Write (data (fst (helloRun (golib noTable) postHello world0)))]
   \<and> status_sent (written (snd (helloRun (golib noTable) postHello world0))) = 200
   \<and> status (fst (helloRun marshalFails getHello world0)) = 500
   \<and> written (snd (helloRun marshalFails getHello world0)) = [Write []]
   \<and> status_sent (written (snd (helloRun marshalFails getHello world0))) = 200"
proof -
  have p: "Method postHello \<noteq> ''GET''
         \<or> isl (Marshal (golib noTable)
              \<lparr>Data = helloMsg (Format_RFC1123Z (fst (time_Now (Println ''hello handler'' world0)))),
                 Error = []\<rparr>)"
    by (simp add: postHello_def)
  have g: "Method getHello \<noteq> ''GET''
         \<or> isl (Marshal marshalFails
              \<lparr>Data = helloMsg (Format_RFC1123Z (fst (time_Now (Println ''hello handler'' world0)))),
                 Error = []\<rparr>)"
    by (simp add: marshalFails_def)
  have n: "\<not> isl (Marshal (golib noTable)
              \<lparr>Data = [], Error = methodError (printable (golib noTable)) (Method postHello)\<rparr>)"
    by (simp add: golib_def json_Marshal_def)
  have d: "data (fst (helloRun marshalFails getHello world0)) = []"
    by (simp add: helloRun_def helloSwitch_def helloDeferred_def marshalFails_def getHello_def
          Let_def split_def)
  have s: "status (fst (helloRun marshalFails getHello world0)) = 500"
    by (simp add: helloRun_def helloSwitch_def helloDeferred_def marshalFails_def getHello_def
          Let_def split_def)
  show ?thesis
    using hello_status_never_applied
            [where L = "golib noTable" and r = postHello and w = world0, OF prod.collapse [symmetric] p]
          hello_status_never_applied
            [where L = marshalFails and r = getHello and w = world0, OF prod.collapse [symmetric] g]
          n d s
    by (simp add: postHello_def world0_def)
qed

lemma body_safe: "list_all (\<lambda>c. htmlSafeSet (byte c)) s \<Longrightarrow> appendStringBody s = s"
  by (induction s) (auto simp add: htmlSafeSet_def)

lemma body_ascii_append:
  "list_all (\<lambda>c. byte c < 0x80) a \<Longrightarrow> appendStringBody (a @ b) = appendStringBody a @ appendStringBody b"
  by (induction a) auto

lemma digit_safe: "k < 10 \<Longrightarrow> htmlSafeSet (byte (''0123456789'' ! k))"
proof -
  assume "k < 10"
  then have "k \<in> {0,1,2,3,4,5,6,7,8,9}" by auto
  then show ?thesis by (auto simp add: htmlSafeSet_def byte_def)
qed

lemma decimal_safe: "list_all (\<lambda>c. htmlSafeSet (byte c)) (decimal n)"
proof (induction n rule: decimal.induct)
  case (1 n)
  show ?case
  proof (cases "n < 10")
    case True
    then show ?thesis by (subst decimal.simps) (simp add: digit_safe)
  next
    case False
    then show ?thesis using 1 by (subst decimal.simps) (simp add: digit_safe)
  qed
qed

lemma sign_safe:
  "htmlSafeSet (byte CHR ''0'')" "htmlSafeSet (byte CHR ''-'')" "htmlSafeSet (byte CHR ''+'')"
  "htmlSafeSet (byte CHR '' '')" "htmlSafeSet (byte CHR '':'')" "htmlSafeSet (byte CHR '','')"
  by (simp_all add: htmlSafeSet_def byte_def)

lemma appendInt_safe: "list_all (\<lambda>c. htmlSafeSet (byte c)) (appendInt x n)"
  using decimal_safe [of "nat \<bar>x\<bar>"]
  by (auto simp add: appendInt_def Let_def list_all_iff sign_safe)

lemma appendNumTZ_safe: "list_all (\<lambda>c. htmlSafeSet (byte c)) (appendNumTZ off)"
  by (simp add: appendNumTZ_def Let_def appendInt_safe sign_safe)

lemma weekday_safe: "list_all (\<lambda>c. htmlSafeSet (byte c)) (take 3 (Weekday_String d))"
  by (cases d) (simp_all add: htmlSafeSet_def byte_def)

lemma month_safe: "list_all (\<lambda>c. htmlSafeSet (byte c)) (take 3 (Month_String m))"
  by (cases m) (simp_all add: htmlSafeSet_def byte_def)

lemma Format_safe: "list_all (\<lambda>c. htmlSafeSet (byte c)) (Format_RFC1123Z t)"
  by (simp add: Format_RFC1123Z_def appendInt_safe appendNumTZ_safe weekday_safe month_safe
        sign_safe)

lemma helloMsg_safe: "list_all (\<lambda>c. htmlSafeSet (byte c)) (helloMsg (Format_RFC1123Z t))"
proof -
  have "list_all (\<lambda>c. htmlSafeSet (byte c)) ''Hello, from service. Today is ''"
    by (simp add: htmlSafeSet_def byte_def)
  then show ?thesis
    by (simp add: helloMsg_def Format_safe)
qed

lemma helloMsg_encode:
  "structEncode \<lparr>Data = helloMsg (Format_RFC1123Z t), Error = []\<rparr>
     = ''{\"data\":\"Hello, from service. Today is '' @ Format_RFC1123Z t @ ''\"}''"
proof -
  have "helloMsg (Format_RFC1123Z t) \<noteq> []" by (simp add: helloMsg_def)
  then show ?thesis
    by (simp add: structEncode_data appendString_def body_safe [OF helloMsg_safe])
       (simp add: helloMsg_def)
qed


lemma helloHandler_GET:
  assumes "Method r = ''GET''" and "time_Now (Println ''hello handler'' w) = (t, w1)"
  shows "helloHandler (golib tbl) r w =
           (Returned,
            w1\<lparr>written := written w
                 @ [WriteHeader 200,
                    Write (''{\"data\":\"Hello, from service. Today is '' @ Format_RFC1123Z t @ ''\"}'')]\<rparr>)"
proof -
  have k: "written w1 = written w"
    using time_Now_keeps [OF assms(2)] by (simp add: Println_def)
  show ?thesis
    using assms k
    by (simp add: helloHandler_def helloRun_def helloSwitch_def helloDeferred_def golib_def
          json_Marshal_def helloMsg_encode w_Write_def w_WriteHeader_def)
qed

lemma status_sent_fresh: "status_sent (WriteHeader 200 # cs) = 200" "status_sent (Write bs # cs) = 200"
  by simp_all

subsection \<open>The endpoint\<close>

text \<open>
  C6. For every request to \<^verbatim>\<open>/hello\<close> with method GET, served by the handler of \<^verbatim>\<open>main\<close>, the
  calls on the response writer are \<^verbatim>\<open>WriteHeader(200)\<close> and one \<^verbatim>\<open>Write\<close> of the serialised
  envelope \<^verbatim>\<open>{"data":"Hello, from service. Today is <t>"}\<close>, where \<^verbatim>\<open><t>\<close> is the time the
  handler read, in the layout of RFC 1123 with a numeric zone; the envelope has the data
  field, which is not empty, and no error field. On a fresh writer the status sent is 200 and
  the body is that envelope.
\<close>

theorem hello_GET_response:
  assumes "URLPath r = ''/hello''" and "Method r = ''GET''"
    and "time_Now (Println ''access_log middleware'' (Println ''panic middleware'' w)) = (start, wa)"
    and "time_Now (Println ''hello handler'' wa) = (t, wh)"
  shows "fst (handler (golib tbl) other r w) = Returned
       \<and> written (snd (handler (golib tbl) other r w)) =
           written w
             @ [WriteHeader 200,
                Write (''{\"data\":\"Hello, from service. Today is '' @ Format_RFC1123Z t @ ''\"}'')]
       \<and> (written w = [] \<longrightarrow>
            status_sent (written (snd (handler (golib tbl) other r w))) = 200
          \<and> body_sent (Method r) (written (snd (handler (golib tbl) other r w)))
               = ''{\"data\":\"Hello, from service. Today is '' @ Format_RFC1123Z t @ ''\"}'')
       \<and> ''{\"data\":\"Hello, from service. Today is '' @ Format_RFC1123Z t @ ''\"}''
            = structEncode \<lparr>Data = ''Hello, from service. Today is '' @ Format_RFC1123Z t, Error = []\<rparr>
       \<and> structFields \<lparr>Data = ''Hello, from service. Today is '' @ Format_RFC1123Z t, Error = []\<rparr>
            = [(''data'', ''Hello, from service. Today is '' @ Format_RFC1123Z t)]"
proof -
  have ka: "written wa = written w"
    using time_Now_keeps [OF assms(3)] by (simp add: Println_def)
  have m: "mux (golib tbl) other r wa =
             (Returned,
              wh\<lparr>written := written w
                   @ [WriteHeader 200,
                      Write (''{\"data\":\"Hello, from service. Today is '' @ Format_RFC1123Z t @ ''\"}'')]\<rparr>)"
    using assms(1) helloHandler_GET [OF assms(2) assms(4), of tbl] ka by (simp add: mux_def)
  obtain e we where e: "time_Since start
       (wh\<lparr>written := written w
             @ [WriteHeader 200,
                Write (''{\"data\":\"Hello, from service. Today is '' @ Format_RFC1123Z t @ ''\"}'')]\<rparr>)
       = (e, we)"
    by (cases "time_Since start
       (wh\<lparr>written := written w
             @ [WriteHeader 200,
                Write (''{\"data\":\"Hello, from service. Today is '' @ Format_RFC1123Z t @ ''\"}'')]\<rparr>)")
  have ke: "written we = written w
             @ [WriteHeader 200,
                Write (''{\"data\":\"Hello, from service. Today is '' @ Format_RFC1123Z t @ ''\"}'')]"
    using e by (auto simp add: time_Since_def split: prod.splits dest: time_Now_keeps)
  have a: "accessLog (golib tbl) (mux (golib tbl) other) r (Println ''panic middleware'' w) =
             (Returned,
              we\<lparr>logged := logged we
                    @ [(''access_log: {method: %s, ip: %s, url: %s, time: %s}'',
                        [Str (Method r), Str (RemoteAddr r), Str (URLPath r), Dur e])]\<rparr>)"
    using assms(3) m e by (simp add: accessLog_def golib_def log_Printf_def)
  have h: "handler (golib tbl) other r w =
             (Returned, Println ''panic middleware defer''
                (we\<lparr>logged := logged we
                    @ [(''access_log: {method: %s, ip: %s, url: %s, time: %s}'',
                        [Str (Method r), Str (RemoteAddr r), Str (URLPath r), Dur e])]\<rparr>))"
    using recovery_Returned [of "accessLog (golib tbl) (mux (golib tbl) other)" r w _ "golib tbl", OF a]
    by (simp add: handler_def chain_eq)
  have s: "''{\"data\":\"Hello, from service. Today is '' @ Format_RFC1123Z t @ ''\"}''
            = structEncode \<lparr>Data = ''Hello, from service. Today is '' @ Format_RFC1123Z t, Error = []\<rparr>"
    using helloMsg_encode [of t] by (simp add: helloMsg_def)
  show ?thesis
    unfolding h using ke s assms(2)
    by (simp add: Println_def structFields_def body_sent_def bodyAllowedForStatus_def)
qed


theorem hello_GET_response_witness:
  "fst (handler (golib noTable) boom getHello world0) = Returned
   \<and> written (snd (handler (golib noTable) boom getHello world0)) =
       [WriteHeader 200,
        Write ''{\"data\":\"Hello, from service. Today is Mon, 02 Jan 2006 15:04:06 -0700\"}'']
   \<and> status_sent (written (snd (handler (golib noTable) boom getHello world0))) = 200
   \<and> body_sent (Method getHello) (written (snd (handler (golib noTable) boom getHello world0)))
       = ''{\"data\":\"Hello, from service. Today is Mon, 02 Jan 2006 15:04:06 -0700\"}''"
proof -
  define wa where "wa = \<lparr>stdout = [''panic middleware'', ''access_log middleware''], logged = [],
                   written = [],
                   clock = \<lparr>wall = time0\<lparr>monotonic := 1000\<rparr>,
                     ahead = [(time0\<lparr>Second := 6\<rparr>, 2000), (time0\<lparr>Second := 7\<rparr>, 3000)]\<rparr>\<rparr>"
  define wh where "wh = \<lparr>stdout = [''panic middleware'', ''access_log middleware'', ''hello handler''],
                   logged = [], written = [],
                   clock = \<lparr>wall = time0\<lparr>Second := 6, monotonic := 3000\<rparr>,
                     ahead = [(time0\<lparr>Second := 7\<rparr>, 3000)]\<rparr>\<rparr>"
  have 1: "URLPath getHello = ''/hello''" and 2: "Method getHello = ''GET''"
    by (simp_all add: getHello_def)
  have 3: "time_Now (Println ''access_log middleware'' (Println ''panic middleware'' world0))
             = (time0\<lparr>monotonic := 1000\<rparr>, wa)"
    by (simp add: wa_def prims world0_def time0_def Let_def)
  have 4: "time_Now (Println ''hello handler'' wa) = (time0\<lparr>Second := 6, monotonic := 3000\<rparr>, wh)"
    by (simp add: wa_def wh_def prims time0_def Let_def)
  have f: "Format_RFC1123Z (time0\<lparr>Second := 6, monotonic := 3000\<rparr>) = ''Mon, 02 Jan 2006 15:04:06 -0700''"
    by (simp add: Format_RFC1123Z_def time0_def appendInt_def appendNumTZ_def decimal.simps)
  show ?thesis
    using hello_GET_response [where other = boom and tbl = noTable, OF 1 2 3 4]
    by (simp add: f world0_def 2 body_sent_def bodyAllowedForStatus_def)
qed

lemma token_plain:
  "isTokenByte c \<Longrightarrow> 0x20 \<le> byte c \<and> byte c < 0x7F \<and> byte c \<noteq> 0x22 \<and> byte c \<noteq> 0x5C"
  by (auto simp add: isTokenByte_def Let_def)

lemma char_of_byte: "char_of (byte c) = c"
  by (simp add: byte_def)

lemma quoteBody_plain:
  "list_all (\<lambda>c. 0x20 \<le> byte c \<and> byte c < 0x7F \<and> byte c \<noteq> 0x22 \<and> byte c \<noteq> 0x5C) m
     \<Longrightarrow> quoteBody tbl m = m"
  by (induction m)
     (auto simp add: frontRune_def RuneError_def appendEscapedRune_def IsPrint_def AppendRune_def
        char_of_byte Let_def)

lemma Quote_token: "list_all isTokenByte m \<Longrightarrow> Quote tbl m = [CHR 0x22] @ m @ [CHR 0x22]"
proof -
  assume "list_all isTokenByte m"
  then have "list_all (\<lambda>c. 0x20 \<le> byte c \<and> byte c < 0x7F \<and> byte c \<noteq> 0x22 \<and> byte c \<noteq> 0x5C) m"
    by (induction m) (auto dest: token_plain)
  then show ?thesis by (simp add: Quote_def quoteBody_plain)
qed

lemma token_ascii: "list_all isTokenByte m \<Longrightarrow> list_all (\<lambda>c. byte c < 0x80) m"
  by (induction m) (auto dest: token_plain)

lemma body_errPrefix: "appendStringBody (errPrefix @ s) = errPrefix @ appendStringBody s"
  by (simp add: errPrefix_def DecodeRuneInString_def first_def byte_def RuneError_def
        htmlSafeSet_def Let_def)

lemma body_errSuffix: "appendStringBody errSuffix = errSuffix"
  by (simp add: errSuffix_def DecodeRuneInString_def first_def byte_def RuneError_def
        htmlSafeSet_def Let_def)

lemma body_quote: "appendStringBody (CHR 0x22 # s) = [CHR 0x5C, CHR 0x22] @ appendStringBody s"
  by (simp add: htmlSafeSet_def escapeByte_def byte_def)

lemma body_methodError:
  assumes "list_all isTokenByte m"
  shows "appendStringBody (errPrefix @ [CHR 0x22] @ m @ [CHR 0x22] @ errSuffix)
           = errPrefix @ [CHR 0x5C, CHR 0x22] @ appendStringBody m @ [CHR 0x5C, CHR 0x22] @ errSuffix"
proof -
  have "appendStringBody (errPrefix @ [CHR 0x22] @ m @ [CHR 0x22] @ errSuffix)
          = errPrefix @ appendStringBody (CHR 0x22 # (m @ CHR 0x22 # errSuffix))"
    using body_errPrefix [of "CHR 0x22 # (m @ CHR 0x22 # errSuffix)"] by simp
  also have "appendStringBody (CHR 0x22 # (m @ CHR 0x22 # errSuffix))
          = [CHR 0x5C, CHR 0x22] @ appendStringBody (m @ CHR 0x22 # errSuffix)"
    by (rule body_quote)
  also have "appendStringBody (m @ CHR 0x22 # errSuffix)
          = appendStringBody m @ appendStringBody (CHR 0x22 # errSuffix)"
    by (rule body_ascii_append [OF token_ascii [OF assms]])
  also have "appendStringBody (CHR 0x22 # errSuffix) = [CHR 0x5C, CHR 0x22] @ errSuffix"
    using body_quote [of errSuffix] by (simp only: body_errSuffix)
  finally show ?thesis by simp
qed


lemma chain_written:
  assumes "time_Now (Println ''access_log middleware'' (Println ''panic middleware'' w)) = (start, w1)"
    and "route r w1 = (Returned, w2)"
  shows "fst (chain (golib tbl) route r w) = Returned
       \<and> written (snd (chain (golib tbl) route r w)) = written w2"
proof -
  obtain e w3 where e: "time_Since start w2 = (e, w3)"
    by (cases "time_Since start w2")
  have k: "written w3 = written w2"
    using e by (auto simp add: time_Since_def split: prod.splits dest: time_Now_keeps)
  have a: "accessLog (golib tbl) route r (Println ''panic middleware'' w) =
             (Returned,
              w3\<lparr>logged := logged w3
                    @ [(''access_log: {method: %s, ip: %s, url: %s, time: %s}'',
                        [Str (Method r), Str (RemoteAddr r), Str (URLPath r), Dur e])]\<rparr>)"
    using assms e by (simp add: accessLog_def golib_def log_Printf_def)
  show ?thesis
    using recovery_Returned [of "accessLog (golib tbl) route" r w _ "golib tbl", OF a] k
    by (simp add: chain_eq Println_def)
qed

lemma helloHandler_other:
  assumes "Method r \<noteq> ''GET''"
  shows "helloHandler (golib tbl) r w =
           (Returned,
            (Println ''hello handler'' w)
              \<lparr>written := written w
                 @ [Write (structEncode \<lparr>Data = [], Error = methodError tbl (Method r)\<rparr>)]\<rparr>)"
  using assms
  by (simp add: helloHandler_def helloRun_def helloSwitch_def helloDeferred_def golib_def
        json_Marshal_def w_Write_def Println_def)

text \<open>
  C3 (as amended). The claim gives the text of the error in English. The format in the
  source is Russian: the error field is the sentence of \<^const>\<open>methodError\<close>, the method
  between double quotes in the place of \<^verbatim>\<open>%q\<close>. So: for every request to \<^verbatim>\<open>/hello\<close> with a
  method other than GET (a token, as the server admits no other), the handler of \<^verbatim>\<open>main\<close>
  makes one \<^verbatim>\<open>Write\<close>, of the serialised envelope whose error field is that sentence: the
  field is not empty and contains the method, and there is no data field. That envelope is
  the body of the response for every such method but \<^verbatim>\<open>HEAD\<close>; in answer to \<^verbatim>\<open>HEAD\<close> the
  handler makes the same \<^verbatim>\<open>Write\<close> and the server sends no body.
\<close>

theorem hello_other_method_response:
  assumes "URLPath r = ''/hello''" and "Method r \<noteq> ''GET''" and "validMethod (Method r)"
  shows "fst (handler (golib tbl) other r w) = Returned
       \<and> written (snd (handler (golib tbl) other r w)) =
           written w
             @ [Write (structEncode
                  \<lparr>Data = [], Error = errPrefix @ [CHR 0x22] @ Method r @ [CHR 0x22] @ errSuffix\<rparr>)]
       \<and> structEncode \<lparr>Data = [], Error = errPrefix @ [CHR 0x22] @ Method r @ [CHR 0x22] @ errSuffix\<rparr>
            = ''{\"error\":\"'' @ errPrefix @ [CHR 0x5C, CHR 0x22] @ appendStringBody (Method r)
                @ [CHR 0x5C, CHR 0x22] @ errSuffix @ ''\"}''
       \<and> structFields \<lparr>Data = [], Error = errPrefix @ [CHR 0x22] @ Method r @ [CHR 0x22] @ errSuffix\<rparr>
            = [(''error'', errPrefix @ [CHR 0x22] @ Method r @ [CHR 0x22] @ errSuffix)]
       \<and> (written w = [] \<longrightarrow>
            body_sent (Method r) (written (snd (handler (golib tbl) other r w)))
              = (if Method r = ''HEAD'' then []
                 else structEncode
                   \<lparr>Data = [], Error = errPrefix @ [CHR 0x22] @ Method r @ [CHR 0x22] @ errSuffix\<rparr>))"
proof -
  have t: "list_all isTokenByte (Method r)"
    using assms(3) by (simp add: validMethod_def)
  have q: "methodError tbl (Method r) = errPrefix @ [CHR 0x22] @ Method r @ [CHR 0x22] @ errSuffix"
    by (simp add: methodError_def Quote_token [OF t])
  obtain start wa where n: "time_Now (Println ''access_log middleware'' (Println ''panic middleware'' w)) = (start, wa)"
    by (cases "time_Now (Println ''access_log middleware'' (Println ''panic middleware'' w))")
  have ka: "written wa = written w"
    using time_Now_keeps [OF n] by (simp add: Println_def)
  have m: "mux (golib tbl) other r wa =
             (Returned,
              (Println ''hello handler'' wa)
                \<lparr>written := written w
                   @ [Write (structEncode
                        \<lparr>Data = [], Error = errPrefix @ [CHR 0x22] @ Method r @ [CHR 0x22] @ errSuffix\<rparr>)]\<rparr>)"
    using assms(1) helloHandler_other [OF assms(2), of tbl wa] ka q by (simp add: mux_def)
  have ne: "errPrefix @ [CHR 0x22] @ Method r @ [CHR 0x22] @ errSuffix \<noteq> []"
    by simp
  have enc: "structEncode \<lparr>Data = [], Error = errPrefix @ [CHR 0x22] @ Method r @ [CHR 0x22] @ errSuffix\<rparr>
            = ''{\"error\":\"'' @ errPrefix @ [CHR 0x5C, CHR 0x22] @ appendStringBody (Method r)
                @ [CHR 0x5C, CHR 0x22] @ errSuffix @ ''\"}''"
    by (simp only: structEncode_error [OF ne] appendString_def body_methodError [OF t]) simp
  show ?thesis
    using chain_written [where route = "mux (golib tbl) other" and r = r and tbl = tbl, OF n m] enc
    by (simp add: handler_def structFields_def body_sent_def bodyAllowedForStatus_def)
qed

theorem hello_other_method_response_witness:
  "fst (handler (golib noTable) boom postHello world0) = Returned
   \<and> written (snd (handler (golib noTable) boom postHello world0)) =
       [Write (''{\"error\":\"'' @ errPrefix @ [CHR 0x5C, CHR 0x22] @ ''POST''
                 @ [CHR 0x5C, CHR 0x22] @ errSuffix @ ''\"}'')]
   \<and> body_sent ''POST'' (written (snd (handler (golib noTable) boom postHello world0))) =
       ''{\"error\":\"'' @ errPrefix @ [CHR 0x5C, CHR 0x22] @ ''POST''
         @ [CHR 0x5C, CHR 0x22] @ errSuffix @ ''\"}''
   \<and> written (snd (handler (golib noTable) boom headHello world0)) =
       [Write (''{\"error\":\"'' @ errPrefix @ [CHR 0x5C, CHR 0x22] @ ''HEAD''
                 @ [CHR 0x5C, CHR 0x22] @ errSuffix @ ''\"}'')]
   \<and> body_sent ''HEAD'' (written (snd (handler (golib noTable) boom headHello world0))) = []"
proof -
  have 1: "URLPath postHello = ''/hello''" and 2: "Method postHello \<noteq> ''GET''"
    and 3: "validMethod (Method postHello)"
    by (simp_all add: postHello_def validMethod_def isTokenByte_def byte_def)
  have 4: "URLPath headHello = ''/hello''" and 5: "Method headHello \<noteq> ''GET''"
    and 6: "validMethod (Method headHello)"
    by (simp_all add: headHello_def validMethod_def isTokenByte_def byte_def)
  have M: "Method postHello = ''POST''"
    by (simp add: postHello_def)
  have N: "Method headHello = ''HEAD''"
    by (simp add: headHello_def)
  have b: "appendStringBody ''POST'' = ''POST''"
    by (simp add: htmlSafeSet_def byte_def)
  have c: "appendStringBody ''HEAD'' = ''HEAD''"
    by (simp add: htmlSafeSet_def byte_def)
  have w0: "written world0 = []"
    by (simp add: world0_def)
  have d: "(''POST'' = ''HEAD'') = False"
    by simp
  note th = hello_other_method_response
              [where other = boom and tbl = noTable and w = world0, OF 1 2 3, unfolded M b w0]
  note tk = hello_other_method_response
              [where other = boom and tbl = noTable and w = world0, OF 4 5 6, unfolded N c w0]
  from th have x: "fst (handler (golib noTable) boom postHello world0) = Returned"
    by (rule conjunct1)
  from th have y: "written (snd (handler (golib noTable) boom postHello world0)) =
      [] @ [Write (structEncode
              \<lparr>Data = [], Error = errPrefix @ [CHR 0x22] @ ''POST'' @ [CHR 0x22] @ errSuffix\<rparr>)]"
    by (rule conjunct1 [OF conjunct2])
  from th have z: "structEncode
              \<lparr>Data = [], Error = errPrefix @ [CHR 0x22] @ ''POST'' @ [CHR 0x22] @ errSuffix\<rparr>
          = ''{\"error\":\"'' @ errPrefix @ [CHR 0x5C, CHR 0x22] @ ''POST''
                 @ [CHR 0x5C, CHR 0x22] @ errSuffix @ ''\"}''"
    by (rule conjunct1 [OF conjunct2 [OF conjunct2]])
  from th have "[] = ([] :: wcall list) \<longrightarrow>
      body_sent ''POST'' (written (snd (handler (golib noTable) boom postHello world0))) =
        (if ''POST'' = ''HEAD'' then []
         else structEncode
              \<lparr>Data = [], Error = errPrefix @ [CHR 0x22] @ ''POST'' @ [CHR 0x22] @ errSuffix\<rparr>)"
    by (rule conjunct2 [OF conjunct2 [OF conjunct2 [OF conjunct2]]])
  then have u: "body_sent ''POST'' (written (snd (handler (golib noTable) boom postHello world0))) =
        structEncode
              \<lparr>Data = [], Error = errPrefix @ [CHR 0x22] @ ''POST'' @ [CHR 0x22] @ errSuffix\<rparr>"
    by (simp only: d if_False simp_thms)
  from tk have y': "written (snd (handler (golib noTable) boom headHello world0)) =
      [] @ [Write (structEncode
              \<lparr>Data = [], Error = errPrefix @ [CHR 0x22] @ ''HEAD'' @ [CHR 0x22] @ errSuffix\<rparr>)]"
    by (rule conjunct1 [OF conjunct2])
  from tk have z': "structEncode
              \<lparr>Data = [], Error = errPrefix @ [CHR 0x22] @ ''HEAD'' @ [CHR 0x22] @ errSuffix\<rparr>
          = ''{\"error\":\"'' @ errPrefix @ [CHR 0x5C, CHR 0x22] @ ''HEAD''
                 @ [CHR 0x5C, CHR 0x22] @ errSuffix @ ''\"}''"
    by (rule conjunct1 [OF conjunct2 [OF conjunct2]])
  from tk have "[] = ([] :: wcall list) \<longrightarrow>
      body_sent ''HEAD'' (written (snd (handler (golib noTable) boom headHello world0))) =
        (if ''HEAD'' = ''HEAD'' then []
         else structEncode
              \<lparr>Data = [], Error = errPrefix @ [CHR 0x22] @ ''HEAD'' @ [CHR 0x22] @ errSuffix\<rparr>)"
    by (rule conjunct2 [OF conjunct2 [OF conjunct2 [OF conjunct2]]])
  then have u': "body_sent ''HEAD'' (written (snd (handler (golib noTable) boom headHello world0))) = []"
    by (simp only: if_True simp_thms)
  have y2: "written (snd (handler (golib noTable) boom postHello world0)) =
       [Write (''{\"error\":\"'' @ errPrefix @ [CHR 0x5C, CHR 0x22] @ ''POST''
                 @ [CHR 0x5C, CHR 0x22] @ errSuffix @ ''\"}'')]"
    by (simp only: y z append_Nil)
  have u2: "body_sent ''POST'' (written (snd (handler (golib noTable) boom postHello world0))) =
       ''{\"error\":\"'' @ errPrefix @ [CHR 0x5C, CHR 0x22] @ ''POST''
         @ [CHR 0x5C, CHR 0x22] @ errSuffix @ ''\"}''"
    by (simp only: u z)
  have y2': "written (snd (handler (golib noTable) boom headHello world0)) =
       [Write (''{\"error\":\"'' @ errPrefix @ [CHR 0x5C, CHR 0x22] @ ''HEAD''
                 @ [CHR 0x5C, CHR 0x22] @ errSuffix @ ''\"}'')]"
    by (simp only: y' z' append_Nil)
  show ?thesis
    by (intro conjI) (rule x, rule y2, rule u2, rule y2', rule u')
qed

text \<open>
  \<^verbatim>\<open>POST /hello\<close>: the body is the envelope of the Russian sentence, not that of the English
  text of the claim.
\<close>

theorem hello_POST_body_not_english:
  "body_sent (Method postHello) (written (snd (handler (golib noTable) boom postHello world0)))
     = ''{\"error\":\"'' @ errPrefix @ [CHR 0x5C, CHR 0x22] @ ''POST''
         @ [CHR 0x5C, CHR 0x22] @ errSuffix @ ''\"}''
   \<and> body_sent (Method postHello) (written (snd (handler (golib noTable) boom postHello world0)))
     \<noteq> structEncode \<lparr>Data = [], Error = ''method \"POST\" not supported''\<rparr>"
proof -
  have n: "time_Now (Println ''access_log middleware'' (Println ''panic middleware'' world0))
             = (fst (time_Now (Println ''access_log middleware'' (Println ''panic middleware'' world0))),
                snd (time_Now (Println ''access_log middleware'' (Println ''panic middleware'' world0))))"
    by simp
  have k: "written (snd (time_Now (Println ''access_log middleware'' (Println ''panic middleware'' world0)))) = []"
    using time_Now_keeps [OF n] by (simp add: Println_def world0_def)
  have t: "list_all isTokenByte ''POST''"
    by (simp add: isTokenByte_def byte_def)
  have q: "methodError noTable ''POST'' = errPrefix @ [CHR 0x22] @ ''POST'' @ [CHR 0x22] @ errSuffix"
    by (simp add: methodError_def Quote_token [OF t])
  have ne: "errPrefix @ [CHR 0x22] @ ''POST'' @ [CHR 0x22] @ errSuffix \<noteq> []"
    by simp
  have b: "appendStringBody ''POST'' = ''POST''"
    by (simp add: htmlSafeSet_def byte_def)
  have enc: "structEncode \<lparr>Data = [], Error = methodError noTable ''POST''\<rparr>
            = ''{\"error\":\"'' @ errPrefix @ [CHR 0x5C, CHR 0x22] @ ''POST''
                @ [CHR 0x5C, CHR 0x22] @ errSuffix @ ''\"}''"
    unfolding q
    by (simp only: structEncode_error [OF ne] appendString_def body_methodError [OF t] b) simp
  have m: "mux (golib noTable) boom postHello
             (snd (time_Now (Println ''access_log middleware'' (Println ''panic middleware'' world0))))
           = (Returned,
              (Println ''hello handler''
                 (snd (time_Now (Println ''access_log middleware'' (Println ''panic middleware'' world0)))))
                \<lparr>written := [Write (''{\"error\":\"'' @ errPrefix @ [CHR 0x5C, CHR 0x22] @ ''POST''
                                      @ [CHR 0x5C, CHR 0x22] @ errSuffix @ ''\"}'')]\<rparr>)"
    using helloHandler_other [of postHello noTable] k enc
    by (simp add: mux_def postHello_def)
  have en: "structEncode \<lparr>Data = [], Error = ''method \"POST\" not supported''\<rparr>
              = ''{\"error\":\"method '' @ [CHR 0x5C, CHR 0x22] @ ''POST'' @ [CHR 0x5C, CHR 0x22]
                  @ '' not supported\"}''"
    by (simp add: structEncode_error appendString_def htmlSafeSet_def escapeByte_def byte_def)
  show ?thesis
    using chain_written
            [where route = "mux (golib noTable) boom" and r = postHello and tbl = noTable, OF n m]
    by (simp add: handler_def en body_sent_def bodyAllowedForStatus_def postHello_def)
       (simp add: errPrefix_def)
qed

section \<open>Facts about the decoder\<close>

subsection \<open>Termination of the object decoder\<close>

lemma scanString_shorter: "scanString s = Some (lit, after) \<Longrightarrow> length after < length s"
proof (induction s arbitrary: lit after rule: scanString.induct)
  case 1
  then show ?case by simp
next
  case (2 c cs)
  then show ?case
    by (auto split: if_splits list.splits option.splits prod.splits) fastforce+
qed

lemma stringLit_shorter: "stringLit s = Some (v, after) \<Longrightarrow> length after < length s"
  by (auto simp add: stringLit_def split: list.splits if_splits option.splits
        dest!: scanString_shorter)

lemma skipSpace_length: "length (skipSpace s) \<le> length s"
  by (simp add: skipSpace_def length_dropWhile_le)

termination objectMembers
proof (relation "measure (\<lambda>(s, v). length s)", goal_cases)
  case 1
  then show ?case by simp
next
  case (2 s v x2 key s1 colon s2 x2a val s3 v' sep s4)
  have a: "length s1 < length s"
    using 2 by (auto dest: stringLit_shorter)
  have b: "length s2 < length s1"
    using 2 skipSpace_length [of s1] by simp
  have c: "length s3 < length s2"
    using 2 stringLit_shorter [of "skipSpace s2" val s3] skipSpace_length [of s2] by simp
  have d: "length s4 < length s3"
    using 2 skipSpace_length [of s3] by simp
  show ?case
    using a b c d skipSpace_length [of s4] by simp
qed

declare objectMembers.simps [simp del]

subsection \<open>UTF-8: decoding and encoding\<close>

lemma split2:
  fixes x y :: nat
  assumes "y < 64"
  shows "(x * 64 + y) div 64 = x" "(x * 64 + y) mod 64 = y"
  using assms by simp_all

lemma split3:
  fixes x y z :: nat
  assumes "y < 64" "z < 64"
  shows "(x * 4096 + y * 64 + z) div 4096 = x"
    "(x * 4096 + y * 64 + z) div 64 mod 64 = y"
    "(x * 4096 + y * 64 + z) mod 64 = z"
proof -
  have e: "x * 4096 + y * 64 + z = (x * 64 + y) * 64 + z" by simp
  have f: "(x * 4096 + y * 64 + z) div 64 = x * 64 + y"
    by (simp only: e split2(1) [OF assms(2)])
  show "(x * 4096 + y * 64 + z) div 64 mod 64 = y"
    by (simp only: f split2(2) [OF assms(1)])
  show "(x * 4096 + y * 64 + z) mod 64 = z"
    by (simp only: e split2(2) [OF assms(2)])
  have "y * 64 + z < 4096" using assms by simp
  then show "(x * 4096 + y * 64 + z) div 4096 = x"
    by (simp add: add.assoc)
qed

lemma split4:
  fixes w x y z :: nat
  assumes "x < 64" "y < 64" "z < 64"
  shows "(w * 262144 + x * 4096 + y * 64 + z) div 262144 = w"
    "(w * 262144 + x * 4096 + y * 64 + z) div 4096 mod 64 = x"
    "(w * 262144 + x * 4096 + y * 64 + z) div 64 mod 64 = y"
    "(w * 262144 + x * 4096 + y * 64 + z) mod 64 = z"
proof -
  have e: "w * 262144 + x * 4096 + y * 64 + z = (w * 64 + x) * 4096 + y * 64 + z" by simp
  show "(w * 262144 + x * 4096 + y * 64 + z) div 64 mod 64 = y"
    by (simp only: e split3(2) [OF assms(2,3)])
  show "(w * 262144 + x * 4096 + y * 64 + z) mod 64 = z"
    by (simp only: e split3(3) [OF assms(2,3)])
  have f: "(w * 262144 + x * 4096 + y * 64 + z) div 4096 = w * 64 + x"
    by (simp only: e split3(1) [OF assms(2,3)])
  show "(w * 262144 + x * 4096 + y * 64 + z) div 4096 mod 64 = x"
    by (simp only: f split2(2) [OF assms(1)])
  have "x * 4096 + y * 64 + z < 262144" using assms by simp
  then show "(w * 262144 + x * 4096 + y * 64 + z) div 262144 = w"
    by (simp add: add.assoc)
qed


lemma first_cases:
  assumes "first b = Some (sz, lo, hi)"
  shows "(sz = 2 \<and> lo = 0x80 \<and> hi = 0xBF \<and> 0xC2 \<le> b \<and> b \<le> 0xDF)
       \<or> (sz = 3 \<and> 0x80 \<le> lo \<and> hi \<le> 0xBF \<and> 0xE0 \<le> b \<and> b \<le> 0xEF
            \<and> (b = 0xE0 \<longrightarrow> lo = 0xA0) \<and> (b = 0xED \<longrightarrow> hi = 0x9F))
       \<or> (sz = 4 \<and> 0x80 \<le> lo \<and> hi \<le> 0xBF \<and> 0xF0 \<le> b \<and> b \<le> 0xF4
            \<and> (b = 0xF0 \<longrightarrow> lo = 0x90) \<and> (b = 0xF4 \<longrightarrow> hi = 0x8F))"
  using assms by (auto simp add: first_def split: if_splits)

text \<open>The shapes of a sequence that the decoder accepts.\<close>

lemma decode_shapes:
  assumes "0x80 \<le> byte c" and "DecodeRuneInString (c # cs) = (r, n)"
    and "\<not> (r = RuneError \<and> n = 1)"
  obtains
    (two) c1 t where "cs = c1 # t" "n = 2" "r = byte c mod 32 * 64 + byte c1 mod 64"
      "0xC2 \<le> byte c" "byte c \<le> 0xDF" "0x80 \<le> byte c1" "byte c1 \<le> 0xBF"
  | (three) c1 c2 t where "cs = c1 # c2 # t" "n = 3"
      "r = byte c mod 16 * 4096 + byte c1 mod 64 * 64 + byte c2 mod 64"
      "0xE0 \<le> byte c" "byte c \<le> 0xEF" "0x80 \<le> byte c1" "byte c1 \<le> 0xBF"
      "0x80 \<le> byte c2" "byte c2 \<le> 0xBF"
      "byte c = 0xE0 \<longrightarrow> 0xA0 \<le> byte c1" "byte c = 0xED \<longrightarrow> byte c1 \<le> 0x9F"
  | (four) c1 c2 c3 t where "cs = c1 # c2 # c3 # t" "n = 4"
      "r = byte c mod 8 * 262144 + byte c1 mod 64 * 4096 + byte c2 mod 64 * 64 + byte c3 mod 64"
      "0xF0 \<le> byte c" "byte c \<le> 0xF4" "0x80 \<le> byte c1" "byte c1 \<le> 0xBF"
      "0x80 \<le> byte c2" "byte c2 \<le> 0xBF" "0x80 \<le> byte c3" "byte c3 \<le> 0xBF"
      "byte c = 0xF0 \<longrightarrow> 0x90 \<le> byte c1" "byte c = 0xF4 \<longrightarrow> byte c1 \<le> 0x8F"
proof -
  obtain sz lo hi where f: "first (byte c) = Some (sz, lo, hi)"
    using assms by (cases "first (byte c)") (auto simp add: DecodeRuneInString_def)
  have len: "sz \<le> length (c # cs)"
    using assms f by (auto simp add: DecodeRuneInString_def Let_def split: if_splits)
  have r1: "lo \<le> byte (cs ! 0) \<and> byte (cs ! 0) \<le> hi"
    using assms f by (auto simp add: DecodeRuneInString_def Let_def split: if_splits)
  from first_cases [OF f] consider
    (a) "sz = 2" "lo = 0x80" "hi = 0xBF" "0xC2 \<le> byte c" "byte c \<le> 0xDF"
  | (b) "sz = 3" "0x80 \<le> lo" "hi \<le> 0xBF" "0xE0 \<le> byte c" "byte c \<le> 0xEF"
        "byte c = 0xE0 \<longrightarrow> lo = 0xA0" "byte c = 0xED \<longrightarrow> hi = 0x9F"
  | (c) "sz = 4" "0x80 \<le> lo" "hi \<le> 0xBF" "0xF0 \<le> byte c" "byte c \<le> 0xF4"
        "byte c = 0xF0 \<longrightarrow> lo = 0x90" "byte c = 0xF4 \<longrightarrow> hi = 0x8F"
    by blast
  then show ?thesis
  proof cases
    case a
    then obtain c1 t where cs: "cs = c1 # t"
      using len by (cases cs) auto
    show ?thesis
      using assms f a r1 cs
      by (intro two [of c1 t]) (auto simp add: DecodeRuneInString_def Let_def split: if_splits)
  next
    case b
    then obtain c1 c2 t where cs: "cs = c1 # c2 # t"
      using len by (cases cs; cases "tl cs") auto
    show ?thesis
      using assms f b r1 cs
      by (intro three [of c1 c2 t]) (auto simp add: DecodeRuneInString_def Let_def split: if_splits)
  next
    case c
    then obtain c1 c2 c3 t where cs: "cs = c1 # c2 # c3 # t"
      using len by (cases cs; cases "tl cs"; cases "tl (tl cs)") auto
    show ?thesis
      using assms f c r1 cs
      by (intro four [of c1 c2 c3 t]) (auto simp add: DecodeRuneInString_def Let_def split: if_splits)
  qed
qed

lemma mod_offset:
  fixes a m q :: nat
  assumes "m * q \<le> a" and "a < m * q + m"
  shows "a mod m = a - m * q"
proof -
  define k where "k = a - m * q"
  have a: "a = m * q + k" using assms by (simp add: k_def)
  have k: "k < m" using assms by (simp add: k_def)
  have "(m * q + k) mod m = k mod m" by (rule mod_mult_self4)
  then have "(m * q + k) mod m = k" using k by simp
  then have "a mod m = k" by (simp only: a [symmetric])
  then show ?thesis by (simp only: k_def)
qed

lemma lead_mod:
  fixes a :: nat
  shows "0xC2 \<le> a \<Longrightarrow> a \<le> 0xDF \<Longrightarrow> a mod 32 = a - 192"
    and "0xE0 \<le> a \<Longrightarrow> a \<le> 0xEF \<Longrightarrow> a mod 16 = a - 224"
    and "0xF0 \<le> a \<Longrightarrow> a \<le> 0xF4 \<Longrightarrow> a mod 8 = a - 240"
    and "0x80 \<le> a \<Longrightarrow> a \<le> 0xBF \<Longrightarrow> a mod 64 = a - 128"
  using mod_offset [of 32 6 a] mod_offset [of 16 14 a] mod_offset [of 8 30 a]
    mod_offset [of 64 2 a]
  by simp_all

lemma encode_two:
  assumes "0xC2 \<le> byte c" "byte c \<le> 0xDF" "0x80 \<le> byte c1" "byte c1 \<le> 0xBF"
  shows "AppendRune (byte c mod 32 * 64 + byte c1 mod 64) = [c, c1]"
proof -
  define x where "x = byte c - 192"
  define y where "y = byte c1 - 128"
  have r: "byte c mod 32 * 64 + byte c1 mod 64 = x * 64 + y"
    using assms by (simp add: lead_mod x_def y_def)
  have y: "y < 64" and x: "2 \<le> x" "x \<le> 31"
    using assms by (simp_all add: x_def y_def)
  have a: "192 + x = byte c" and b: "128 + y = byte c1"
    using assms by (simp_all add: x_def y_def)
  have lo: "\<not> x * 64 + y \<le> 0x7F" and hi: "x * 64 + y \<le> 0x7FF"
    using x y by simp_all
  show ?thesis
    unfolding r AppendRune_def
    by (simp only: lo hi if_False if_True split2 [OF y] a b char_of_byte)
qed

lemma encode_three:
  assumes "0xE0 \<le> byte c" "byte c \<le> 0xEF" "0x80 \<le> byte c1" "byte c1 \<le> 0xBF"
    "0x80 \<le> byte c2" "byte c2 \<le> 0xBF"
    "byte c = 0xE0 \<longrightarrow> 0xA0 \<le> byte c1" "byte c = 0xED \<longrightarrow> byte c1 \<le> 0x9F"
  shows "AppendRune (byte c mod 16 * 4096 + byte c1 mod 64 * 64 + byte c2 mod 64) = [c, c1, c2]"
proof -
  define x where "x = byte c - 224"
  define y where "y = byte c1 - 128"
  define z where "z = byte c2 - 128"
  have r: "byte c mod 16 * 4096 + byte c1 mod 64 * 64 + byte c2 mod 64 = x * 4096 + y * 64 + z"
    using assms by (simp add: lead_mod x_def y_def z_def)
  have y: "y < 64" and z: "z < 64" and x: "x \<le> 15"
    and x0: "x = 0 \<longrightarrow> 32 \<le> y" and x13: "x = 13 \<longrightarrow> y \<le> 31"
    using assms by (auto simp add: x_def y_def z_def)
  have a: "224 + x = byte c" and b: "128 + y = byte c1" and c: "128 + z = byte c2"
    using assms by (simp_all add: x_def y_def z_def)
  have 1: "\<not> x * 4096 + y * 64 + z \<le> 0x7F" and 2: "\<not> x * 4096 + y * 64 + z \<le> 0x7FF"
    using x0 by (cases "x = 0"; simp)+
  have 3: "\<not> (x * 4096 + y * 64 + z > 0x10FFFF
              \<or> (0xD800 \<le> x * 4096 + y * 64 + z \<and> x * 4096 + y * 64 + z \<le> 0xDFFF))"
    using x y z x13 by (cases "x = 13") auto
  have 4: "x * 4096 + y * 64 + z \<le> 0xFFFF"
    using x y z by simp
  show ?thesis
    unfolding r AppendRune_def encode3_def
    by (simp only: 1 2 3 4 if_False if_True split3 [OF y z] a b c char_of_byte)
qed

lemma encode_four:
  assumes "0xF0 \<le> byte c" "byte c \<le> 0xF4" "0x80 \<le> byte c1" "byte c1 \<le> 0xBF"
    "0x80 \<le> byte c2" "byte c2 \<le> 0xBF" "0x80 \<le> byte c3" "byte c3 \<le> 0xBF"
    "byte c = 0xF0 \<longrightarrow> 0x90 \<le> byte c1" "byte c = 0xF4 \<longrightarrow> byte c1 \<le> 0x8F"
  shows "AppendRune (byte c mod 8 * 262144 + byte c1 mod 64 * 4096 + byte c2 mod 64 * 64
           + byte c3 mod 64) = [c, c1, c2, c3]"
proof -
  define u where "u = byte c - 240"
  define x where "x = byte c1 - 128"
  define y where "y = byte c2 - 128"
  define z where "z = byte c3 - 128"
  have r: "byte c mod 8 * 262144 + byte c1 mod 64 * 4096 + byte c2 mod 64 * 64 + byte c3 mod 64
             = u * 262144 + x * 4096 + y * 64 + z"
    using assms by (simp add: lead_mod u_def x_def y_def z_def)
  have x: "x < 64" and y: "y < 64" and z: "z < 64" and u: "u \<le> 4"
    and u0: "u = 0 \<longrightarrow> 16 \<le> x" and u4: "u = 4 \<longrightarrow> x \<le> 15"
    using assms by (auto simp add: u_def x_def y_def z_def)
  have a: "240 + u = byte c" and b: "128 + x = byte c1" and c: "128 + y = byte c2"
    and d: "128 + z = byte c3"
    using assms by (simp_all add: u_def x_def y_def z_def)
  have 1: "\<not> u * 262144 + x * 4096 + y * 64 + z \<le> 0x7F"
    and 2: "\<not> u * 262144 + x * 4096 + y * 64 + z \<le> 0x7FF"
    and 4: "\<not> u * 262144 + x * 4096 + y * 64 + z \<le> 0xFFFF"
    using u0 by (cases "u = 0"; simp)+
  have 3: "\<not> (u * 262144 + x * 4096 + y * 64 + z > 0x10FFFF
              \<or> (0xD800 \<le> u * 262144 + x * 4096 + y * 64 + z
                  \<and> u * 262144 + x * 4096 + y * 64 + z \<le> 0xDFFF))"
    using u x y z u0 u4 by (cases "u = 0"; cases "u = 4") auto
  show ?thesis
    unfolding r AppendRune_def
    by (simp only: 1 2 3 4 if_False if_True split4 [OF x y z] a b c d char_of_byte)
qed

lemma decode_two:
  assumes "0xC2 \<le> byte c" "byte c \<le> 0xDF" "0x80 \<le> byte c1" "byte c1 \<le> 0xBF"
  shows "DecodeRuneInString (c # c1 # t) = (byte c mod 32 * 64 + byte c1 mod 64, 2)"
  using assms by (auto simp add: DecodeRuneInString_def first_def Let_def)

lemma decode_three:
  assumes "0xE0 \<le> byte c" "byte c \<le> 0xEF" "0x80 \<le> byte c1" "byte c1 \<le> 0xBF"
    "0x80 \<le> byte c2" "byte c2 \<le> 0xBF"
    "byte c = 0xE0 \<longrightarrow> 0xA0 \<le> byte c1" "byte c = 0xED \<longrightarrow> byte c1 \<le> 0x9F"
  shows "DecodeRuneInString (c # c1 # c2 # t)
           = (byte c mod 16 * 4096 + byte c1 mod 64 * 64 + byte c2 mod 64, 3)"
  using assms by (auto simp add: DecodeRuneInString_def first_def Let_def)

lemma decode_four:
  assumes "0xF0 \<le> byte c" "byte c \<le> 0xF4" "0x80 \<le> byte c1" "byte c1 \<le> 0xBF"
    "0x80 \<le> byte c2" "byte c2 \<le> 0xBF" "0x80 \<le> byte c3" "byte c3 \<le> 0xBF"
    "byte c = 0xF0 \<longrightarrow> 0x90 \<le> byte c1" "byte c = 0xF4 \<longrightarrow> byte c1 \<le> 0x8F"
  shows "DecodeRuneInString (c # c1 # c2 # c3 # t)
           = (byte c mod 8 * 262144 + byte c1 mod 64 * 4096 + byte c2 mod 64 * 64
                + byte c3 mod 64, 4)"
  using assms by (auto simp add: DecodeRuneInString_def first_def Let_def)

text \<open>
  A sequence that the decoder accepts is the encoding of its rune, its bytes are all
  outside ASCII, and what follows it does not change what the decoder finds.
\<close>

lemma decode_encode:
  assumes "0x80 \<le> byte c" and "DecodeRuneInString (c # cs) = (r, n)"
    and "\<not> (r = RuneError \<and> n = 1)"
  shows "AppendRune r = c # take (n - 1) cs"
    and "list_all (\<lambda>b. 0x80 \<le> byte b) (take (n - 1) cs)"
    and "DecodeRuneInString (c # take (n - 1) cs @ X) = (r, n)"
    and "1 \<le> n" and "n - 1 \<le> length cs"
proof -
  have "AppendRune r = c # take (n - 1) cs
      \<and> list_all (\<lambda>b. 0x80 \<le> byte b) (take (n - 1) cs)
      \<and> DecodeRuneInString (c # take (n - 1) cs @ X) = (r, n) \<and> 1 \<le> n
      \<and> n - 1 \<le> length cs"
  using assms
  proof (cases rule: decode_shapes)
    case (two c1 t)
    then show ?thesis
      using encode_two [of c c1] decode_two [of c c1 X] by simp
  next
    case (three c1 c2 t)
    then show ?thesis
      using encode_three [of c c1 c2] decode_three [of c c1 c2 X] by simp
  next
    case (four c1 c2 c3 t)
    then show ?thesis
      using encode_four [of c c1 c2 c3] decode_four [of c c1 c2 c3 X] by simp
  qed
  then show "AppendRune r = c # take (n - 1) cs"
    and "list_all (\<lambda>b. 0x80 \<le> byte b) (take (n - 1) cs)"
    and "DecodeRuneInString (c # take (n - 1) cs @ X) = (r, n)"
    and "1 \<le> n" and "n - 1 \<le> length cs"
    by simp_all
qed

subsection \<open>Scanning and unquoting an encoded string\<close>

lemma hex_digit:
  assumes "k < 16"
  shows "hexval (lowerhex ! k) = Some k"
    and "lowerhex ! k \<noteq> CHR 0x22 \<and> lowerhex ! k \<noteq> CHR 0x5C \<and> 0x20 \<le> byte (lowerhex ! k)"
proof -
  have "k \<in> {0,1,2,3,4,5,6,7,8,9,10,11,12,13,14,15}" using assms by simp arith
  then show "hexval (lowerhex ! k) = Some k"
    by (auto simp add: lowerhex_def hexval_def byte_def)
  have "k \<in> {0,1,2,3,4,5,6,7,8,9,10,11,12,13,14,15}" using assms by simp arith
  then show "lowerhex ! k \<noteq> CHR 0x22 \<and> lowerhex ! k \<noteq> CHR 0x5C \<and> 0x20 \<le> byte (lowerhex ! k)"
    by (auto simp add: lowerhex_def byte_def)
qed

lemma byte_eq: "byte c = of_char d \<Longrightarrow> c = d"
  by (simp add: byte_def)

lemma scan_plain:
  assumes "c \<noteq> CHR 0x22" "c \<noteq> CHR 0x5C" "0x20 \<le> byte c"
  shows "scanString (c # T) = map_option (\<lambda>(l, a). (c # l, a)) (scanString T)"
  using assms by simp

lemma scan_high:
  assumes "0x80 \<le> byte c"
  shows "scanString (c # T) = map_option (\<lambda>(l, a). (c # l, a)) (scanString T)"
proof -
  have "c \<noteq> CHR 0x22" "c \<noteq> CHR 0x5C" using assms by (auto simp add: byte_def)
  then show ?thesis using assms by simp
qed

lemma scan_highs:
  "list_all (\<lambda>b. 0x80 \<le> byte b) xs \<Longrightarrow>
     scanString (xs @ T) = map_option (\<lambda>(l, a). (xs @ l, a)) (scanString T)"
proof (induction xs)
  case Nil
  then show ?case by (simp add: option.map_ident)
next
  case (Cons x xs)
  then show ?case
    by (simp add: scan_high option.map_comp o_def split_def del: scanString.simps)
qed

lemma scan_escape:
  assumes "validEscape e T"
  shows "scanString (CHR 0x5C # e # T) = map_option (\<lambda>(l, a). (CHR 0x5C # e # l, a)) (scanString T)"
  using assms by simp

lemma scan_u4:
  assumes "h1 < 16" "h2 < 16" "h3 < 16" "h4 < 16"
  shows "scanString (CHR 0x5C # CHR ''u'' # lowerhex ! h1 # lowerhex ! h2 # lowerhex ! h3 # lowerhex ! h4 # T)
     = map_option (\<lambda>(l, a). (CHR 0x5C # CHR ''u'' # lowerhex ! h1 # lowerhex ! h2 # lowerhex ! h3 # lowerhex ! h4 # l, a))
         (scanString T)"
proof -
  have v: "validEscape (CHR ''u'') (lowerhex ! h1 # lowerhex ! h2 # lowerhex ! h3 # lowerhex ! h4 # T)"
    using assms by (simp add: validEscape_def hex_digit)
  show ?thesis
    using v hex_digit(2) [OF assms(1)] hex_digit(2) [OF assms(2)] hex_digit(2) [OF assms(3)]
      hex_digit(2) [OF assms(4)]
    by (simp add: option.map_comp o_def split_def)
qed

text \<open>The five forms of the encoding of a string that is not empty.\<close>

lemma body_cases:
  obtains
    (safe) "byte c < 0x80" "htmlSafeSet (byte c)"
      "appendStringBody (c # cs) = c # appendStringBody cs"
  | (escaped) "byte c < 0x80" "\<not> htmlSafeSet (byte c)"
      "appendStringBody (c # cs) = escapeByte c @ appendStringBody cs"
  | (invalid) "0x80 \<le> byte c" "DecodeRuneInString (c # cs) = (RuneError, 1)"
      "appendStringBody (c # cs)
         = [CHR 0x5C, CHR ''u'', CHR ''f'', CHR ''f'', CHR ''f'', CHR ''d''] @ appendStringBody cs"
  | (separator) r n where "0x80 \<le> byte c" "DecodeRuneInString (c # cs) = (r, n)"
      "\<not> (r = RuneError \<and> n = 1)" "r = 0x2028 \<or> r = 0x2029"
      "appendStringBody (c # cs)
         = [CHR 0x5C, CHR ''u'', CHR ''2'', CHR ''0'', CHR ''2'', lowerhex ! (r mod 16)]
             @ appendStringBody (drop (n - 1) cs)"
  | (rune) r n where "0x80 \<le> byte c" "DecodeRuneInString (c # cs) = (r, n)"
      "\<not> (r = RuneError \<and> n = 1)" "r \<noteq> 0x2028" "r \<noteq> 0x2029"
      "appendStringBody (c # cs) = (c # take (n - 1) cs) @ appendStringBody (drop (n - 1) cs)"
proof (cases "byte c < 0x80")
  case True
  then show ?thesis
    by (cases "htmlSafeSet (byte c)") (auto intro: safe escaped)
next
  case False
  obtain r n where d: "DecodeRuneInString (c # cs) = (r, n)"
    by (cases "DecodeRuneInString (c # cs)")
  show ?thesis
  proof (cases "r = RuneError \<and> n = 1")
    case True
    then show ?thesis using False d by (intro invalid) auto
  next
    case v: False
    have g: "0x80 \<le> byte c" using False by simp
    have t: "take n (c # cs) = c # take (n - 1) cs"
      using decode_encode(4) [OF g d v] by (cases n) simp_all
    show ?thesis
    proof (cases "r = 0x2028 \<or> r = 0x2029")
      case True
      then show ?thesis using False d v by (intro separator [of r n]) auto
    next
      case False
      then show ?thesis using \<open>\<not> byte c < 0x80\<close> d v t by (intro rune [of r n]) auto
    qed
  qed
qed

lemma escapeByte_cases:
  assumes "byte c < 0x80" "\<not> htmlSafeSet (byte c)"
  obtains
    (self) "c = CHR 0x5C \<or> c = CHR 0x22" "escapeByte c = [CHR 0x5C, c]"
  | (short) e where "escapeByte c = [CHR 0x5C, e]" "simpleEscape e = Some c" "e \<noteq> CHR ''u''"
      "validEscape e T"
  | (hex) "escapeByte c = [CHR 0x5C, CHR ''u'', CHR ''0'', CHR ''0'', lowerhex ! (byte c div 16),
             lowerhex ! (byte c mod 16)]"
proof -
  consider "byte c = 0x5C" | "byte c = 0x22" | "byte c = 0x08" | "byte c = 0x0C" | "byte c = 0x0A"
    | "byte c = 0x0D" | "byte c = 0x09"
    | "byte c \<noteq> 0x5C" "byte c \<noteq> 0x22" "byte c \<noteq> 0x08" "byte c \<noteq> 0x0C" "byte c \<noteq> 0x0A"
      "byte c \<noteq> 0x0D" "byte c \<noteq> 0x09"
    by blast
  then show ?thesis
  proof cases
    case 1
    then have "c = CHR 0x5C" by (intro byte_eq) simp
    then show ?thesis by (intro self) (simp_all add: escapeByte_def byte_def)
  next
    case 2
    then have "c = CHR 0x22" by (intro byte_eq) simp
    then show ?thesis by (intro self) (simp_all add: escapeByte_def byte_def)
  next
    case 3
    then have "c = CHR 0x08" by (intro byte_eq) simp
    then show ?thesis
      by (intro short [of "CHR ''b''"]) (simp_all add: escapeByte_def byte_def simpleEscape_def validEscape_def)
  next
    case 4
    then have "c = CHR 0x0C" by (intro byte_eq) simp
    then show ?thesis
      by (intro short [of "CHR ''f''"]) (simp_all add: escapeByte_def byte_def simpleEscape_def validEscape_def)
  next
    case 5
    then have "c = CHR 0x0A" by (intro byte_eq) simp
    then show ?thesis
      by (intro short [of "CHR ''n''"]) (simp_all add: escapeByte_def byte_def simpleEscape_def validEscape_def)
  next
    case 6
    then have "c = CHR 0x0D" by (intro byte_eq) simp
    then show ?thesis
      by (intro short [of "CHR ''r''"]) (simp_all add: escapeByte_def byte_def simpleEscape_def validEscape_def)
  next
    case 7
    then have "c = CHR 0x09" by (intro byte_eq) simp
    then show ?thesis
      by (intro short [of "CHR ''t''"]) (simp_all add: escapeByte_def byte_def simpleEscape_def validEscape_def)
  next
    case 8
    then show ?thesis by (intro hex) (simp add: escapeByte_def Let_def)
  qed
qed

lemma scan_escapeByte:
  assumes "byte c < 0x80" "\<not> htmlSafeSet (byte c)"
  shows "scanString (escapeByte c @ T) = map_option (\<lambda>(l, a). (escapeByte c @ l, a)) (scanString T)"
  using assms
proof (cases rule: escapeByte_cases [where T = T])
  case self
  then show ?thesis by (auto simp add: validEscape_def)
next
  case (short e)
  then show ?thesis by simp
next
  case hex
  have d: "byte c div 16 < 16" and m: "byte c mod 16 < 16"
    using assms by simp_all
  show ?thesis
    using scan_u4 [of 0 0 "byte c div 16" "byte c mod 16" T] d m
    by (simp add: hex lowerhex_def del: scanString.simps)
qed

lemma scan_body:
  "scanString (appendStringBody s @ T)
     = map_option (\<lambda>(l, a). (appendStringBody s @ l, a)) (scanString T)"
proof (induction s rule: length_induct)
  case (1 s)
  show ?case
  proof (cases s)
    case Nil
    then show ?thesis by (simp add: option.map_ident)
  next
    case (Cons c cs)
    have ih: "scanString (appendStringBody (drop k cs) @ T)
               = map_option (\<lambda>(l, a). (appendStringBody (drop k cs) @ l, a)) (scanString T)" for k
      using 1 Cons by simp
    show ?thesis
    proof (cases rule: body_cases [of c cs])
      case safe
      then have p: "c \<noteq> CHR 0x22" "c \<noteq> CHR 0x5C" "0x20 \<le> byte c"
        by (auto simp add: htmlSafeSet_def byte_def)
      show ?thesis
        using ih [of 0] scan_plain [OF p, of "appendStringBody cs @ T"]
        by (simp add: Cons safe(3) option.map_comp o_def split_def
              del: scanString.simps appendStringBody.simps)
    next
      case escaped
      show ?thesis
        using ih [of 0] scan_escapeByte [OF escaped(1,2), of "appendStringBody cs @ T"]
        by (simp add: Cons escaped(3) option.map_comp o_def split_def
              del: scanString.simps appendStringBody.simps)
    next
      case invalid
      show ?thesis
        using ih [of 0] scan_u4 [of 15 15 15 13 "appendStringBody cs @ T"]
        by (simp add: Cons invalid(3) lowerhex_def option.map_comp o_def split_def
              del: scanString.simps appendStringBody.simps)
    next
      case (separator r n)
      have m: "r mod 16 < 16" by simp
      show ?thesis
        using ih [of "n - 1"]
          scan_u4 [of 2 0 2 "r mod 16" "appendStringBody (drop (n - 1) cs) @ T"]
        by (simp add: Cons separator(5) lowerhex_def option.map_comp o_def split_def
              del: scanString.simps appendStringBody.simps)
    next
      case (rune r n)
      note de = decode_encode [OF rune(1) rune(2) rune(3)]
      have h: "list_all (\<lambda>b. 0x80 \<le> byte b) (c # take (n - 1) cs)"
        using rune(1) de(2) by simp
      show ?thesis
        using ih [of "n - 1"]
          scan_highs [OF h, of "appendStringBody (drop (n - 1) cs) @ T"]
        by (simp add: Cons rune(6) option.map_comp o_def split_def
              del: scanString.simps appendStringBody.simps)
    qed
  qed
qed

lemma scan_literal:
  "scanString (appendStringBody s @ CHR 0x22 # T) = Some (appendStringBody s, T)"
  by (simp add: scan_body del: appendStringBody.simps)

lemma getu4_hex:
  assumes "h1 < 16" "h2 < 16" "h3 < 16" "h4 < 16"
  shows "getu4 (CHR 0x5C # CHR ''u'' # lowerhex ! h1 # lowerhex ! h2 # lowerhex ! h3 # lowerhex ! h4 # T)
           = Some (((h1 * 16 + h2) * 16 + h3) * 16 + h4)"
  using assms by (simp add: getu4_def hex_digit(1))

lemma unquote_u4:
  assumes "h1 < 16" "h2 < 16" "h3 < 16" "h4 < 16"
    and "\<not> (0xD800 \<le> ((h1 * 16 + h2) * 16 + h3) * 16 + h4 \<and> ((h1 * 16 + h2) * 16 + h3) * 16 + h4 < 0xE000)"
  shows "unquoteBody (CHR 0x5C # CHR ''u'' # lowerhex ! h1 # lowerhex ! h2 # lowerhex ! h3 # lowerhex ! h4 # T)
           = map_option ((@) (AppendRune (((h1 * 16 + h2) * 16 + h3) * 16 + h4))) (unquoteBody T)"
proof -
  from assms(5) have ne:
    "(0xD800 \<le> ((h1 * 16 + h2) * 16 + h3) * 16 + h4 \<and> ((h1 * 16 + h2) * 16 + h3) * 16 + h4 < 0xE000)
       = False"
    by simp
  have ue: "unicodeEscape (CHR 0x5C # CHR ''u'' # lowerhex ! h1 # lowerhex ! h2 # lowerhex ! h3 # lowerhex ! h4 # T)
          = Some (AppendRune (((h1 * 16 + h2) * 16 + h3) * 16 + h4), 6)"
    by (simp only: unicodeEscape_def getu4_hex [OF assms(1-4)] option.case ne if_False)
  show ?thesis
    by (simp add: ue)
qed

lemma unquote_escapeByte:
  assumes "byte c < 0x80" "\<not> htmlSafeSet (byte c)"
  shows "unquoteBody (escapeByte c @ T) = map_option ((#) c) (unquoteBody T)"
  using assms
proof (cases rule: escapeByte_cases [where T = T])
  case self
  then show ?thesis by (auto simp add: simpleEscape_def)
next
  case (short e)
  then show ?thesis by simp
next
  case hex
  have d: "byte c div 16 < 16" and m: "byte c mod 16 < 16"
    using assms by simp_all
  have v: "((0 * 16 + 0) * 16 + byte c div 16) * 16 + byte c mod 16 = byte c"
    by simp
  have a: "AppendRune (byte c) = [c]"
    using assms(1) by (simp add: AppendRune_def char_of_byte)
  have n: "\<not> (0xD800 \<le> ((0 * 16 + 0) * 16 + byte c div 16) * 16 + byte c mod 16
             \<and> ((0 * 16 + 0) * 16 + byte c div 16) * 16 + byte c mod 16 < 0xE000)"
    unfolding v using assms(1) by simp
  have z: "(0::nat) < 16" by simp
  have "unquoteBody (CHR 0x5C # CHR ''u'' # lowerhex ! 0 # lowerhex ! 0 # lowerhex ! (byte c div 16)
           # lowerhex ! (byte c mod 16) # T) = map_option ((@) [c]) (unquoteBody T)"
    using unquote_u4 [OF z z d m n, of T] unfolding v a .
  moreover have "(@) [c] = (#) c"
    by (rule ext) simp
  ultimately show ?thesis
    by (simp add: hex lowerhex_def del: unquoteBody.simps)
qed

lemma unquote_high:
  assumes "0x80 \<le> byte c"
  shows "unquoteBody (c # T) =
           map_option ((@) (AppendRune (fst (DecodeRuneInString (c # T)))))
             (unquoteBody (drop (snd (DecodeRuneInString (c # T)) - 1) T))"
proof -
  have "c \<noteq> CHR 0x22" "c \<noteq> CHR 0x5C" using assms by (auto simp add: byte_def)
  then show ?thesis using assms by simp
qed

lemma unquote_body: "ValidString s \<Longrightarrow> unquoteBody (appendStringBody s) = Some s"
proof (induction s rule: length_induct)
  case (1 s)
  show ?case
  proof (cases s)
    case Nil
    then show ?thesis by simp
  next
    case (Cons c cs)
    have ih: "ValidString (drop k cs) \<Longrightarrow> unquoteBody (appendStringBody (drop k cs)) = Some (drop k cs)" for k
      using 1 Cons by simp
    have v: "ValidString (c # cs)" using 1(2) Cons by simp
    show ?thesis
    proof (cases rule: body_cases [of c cs])
      case safe
      then have p: "c \<noteq> CHR 0x22" "c \<noteq> CHR 0x5C" "0x20 \<le> byte c"
        by (auto simp add: htmlSafeSet_def byte_def)
      have "ValidString cs" using v safe(1) by simp
      then show ?thesis
        using ih [of 0] p safe(1) by (simp add: Cons safe(3) del: appendStringBody.simps)
    next
      case escaped
      have "ValidString cs" using v escaped(1) by simp
      then show ?thesis
        using ih [of 0] unquote_escapeByte [OF escaped(1,2), of "appendStringBody cs"]
        by (simp add: Cons escaped(3) del: appendStringBody.simps unquoteBody.simps)
    next
      case invalid
      then have False using v by simp
      then show ?thesis ..
    next
      case (separator r n)
      note de = decode_encode [OF separator(1) separator(2) separator(3)]
      have vs: "ValidString (drop (n - 1) cs)"
        using v separator(1,2) by simp
      have m: "r mod 16 < 16" by simp
      have val: "((2 * 16 + 0) * 16 + 2) * 16 + r mod 16 = r"
        using separator(4) by auto
      have ns: "\<not> (0xD800 \<le> ((2 * 16 + 0) * 16 + 2) * 16 + r mod 16
                  \<and> ((2 * 16 + 0) * 16 + 2) * 16 + r mod 16 < 0xE000)"
        unfolding val using separator(4) by auto
      have "unquoteBody (CHR 0x5C # CHR ''u'' # lowerhex ! 2 # lowerhex ! 0 # lowerhex ! 2
               # lowerhex ! (r mod 16) # appendStringBody (drop (n - 1) cs))
             = map_option ((@) (AppendRune r)) (unquoteBody (appendStringBody (drop (n - 1) cs)))"
        using unquote_u4 [of 2 0 2 "r mod 16", OF _ _ _ m ns] unfolding val by simp
      then have "unquoteBody (appendStringBody (c # cs)) = Some ((c # take (n - 1) cs) @ drop (n - 1) cs)"
        using ih [OF vs] de(1)
        by (simp add: separator(5) lowerhex_def del: appendStringBody.simps unquoteBody.simps)
      then show ?thesis by (simp add: Cons del: appendStringBody.simps)
    next
      case (rune r n)
      note de = decode_encode [OF rune(1) rune(2) rune(3)]
      have vs: "ValidString (drop (n - 1) cs)"
        using v rune(1,2) by simp
      have l: "length (take (n - 1) cs) = n - 1"
        using de(5) by simp
      have "unquoteBody (c # take (n - 1) cs @ appendStringBody (drop (n - 1) cs))
              = map_option ((@) (AppendRune r)) (unquoteBody (appendStringBody (drop (n - 1) cs)))"
        using unquote_high [OF rune(1), of "take (n - 1) cs @ appendStringBody (drop (n - 1) cs)"]
          de(3) [of "appendStringBody (drop (n - 1) cs)"] l
        by (simp del: unquoteBody.simps)
      then have "unquoteBody (appendStringBody (c # cs)) = Some ((c # take (n - 1) cs) @ drop (n - 1) cs)"
        using ih [OF vs] de(1)
        by (simp add: rune(6) del: appendStringBody.simps unquoteBody.simps)
      then show ?thesis by (simp add: Cons del: appendStringBody.simps)
    qed
  qed
qed

lemma stringLit_appendString:
  "ValidString s \<Longrightarrow> stringLit (appendString s @ T) = Some (s, T)"
  by (simp add: stringLit_def appendString_def scan_literal unquote_body
        del: appendStringBody.simps)

subsection \<open>Decoding an encoded envelope\<close>

lemma skipSpace_quote: "skipSpace (appendString s @ T) = appendString s @ T"
  by (simp add: skipSpace_def appendString_def isSpace_def del: appendStringBody.simps)

lemma member_last:
  assumes "ValidString k" "ValidString x" "storeField k x v = Some v'"
  shows "objectMembers (appendString k @ CHR '':'' # appendString x @ [CHR ''}'']) v = Some v'"
proof -
  have 1: "stringLit (appendString k @ CHR '':'' # appendString x @ [CHR ''}''])
             = Some (k, CHR '':'' # appendString x @ [CHR ''}''])"
    by (rule stringLit_appendString [OF assms(1)])
  have 2: "stringLit (appendString x @ [CHR ''}'']) = Some (x, [CHR ''}''])"
    by (rule stringLit_appendString [OF assms(2)])
  have 3: "skipSpace (CHR '':'' # appendString x @ [CHR ''}'']) = CHR '':'' # appendString x @ [CHR ''}'']"
    "skipSpace [CHR ''}''] = [CHR ''}'']" "skipSpace [] = []"
    by (simp_all add: skipSpace_def isSpace_def)
  show ?thesis
    by (subst objectMembers.simps)
       (simp only: 1 2 3 assms(3) skipSpace_quote option.case prod.case list.case if_True
          simp_thms, simp)
qed

lemma member_more:
  assumes "ValidString k" "ValidString x" "storeField k x v = Some v'"
  shows "objectMembers (appendString k @ CHR '':'' # appendString x @ CHR '','' # appendString k' @ T) v
           = objectMembers (appendString k' @ T) v'"
proof -
  have 1: "stringLit (appendString k @ CHR '':'' # appendString x @ CHR '','' # appendString k' @ T)
             = Some (k, CHR '':'' # appendString x @ CHR '','' # appendString k' @ T)"
    by (rule stringLit_appendString [OF assms(1)])
  have 2: "stringLit (appendString x @ CHR '','' # appendString k' @ T)
             = Some (x, CHR '','' # appendString k' @ T)"
    by (rule stringLit_appendString [OF assms(2)])
  have 3: "skipSpace (CHR '':'' # appendString x @ CHR '','' # appendString k' @ T)
             = CHR '':'' # appendString x @ CHR '','' # appendString k' @ T"
    "skipSpace (CHR '','' # appendString k' @ T) = CHR '','' # appendString k' @ T"
    by (simp_all add: skipSpace_def isSpace_def)
  show ?thesis
    by (subst objectMembers.simps)
       (simp only: 1 2 3 assms(3) skipSpace_quote option.case prod.case list.case if_True
          simp_thms)
qed

lemma valid_names: "ValidString ''data''" "ValidString ''error''"
  by (simp_all add: byte_def)

lemma Unmarshal_open:
  "Unmarshal (CHR ''{'' # appendString k @ T) = objectMembers (appendString k @ T) \<lparr>Data = [], Error = []\<rparr>"
  by (simp add: Unmarshal_def skipSpace_def isSpace_def appendString_def del: appendStringBody.simps)

lemma Unmarshal_structEncode:
  assumes "ValidString d" "ValidString e"
  shows "Unmarshal (structEncode \<lparr>Data = d, Error = e\<rparr>) = Some \<lparr>Data = d, Error = e\<rparr>"
proof (cases "d = []"; cases "e = []")
  assume "d = []" "e = []"
  then show ?thesis
    by (simp add: structEncode_def structFields_def Unmarshal_def skipSpace_def isSpace_def)
next
  assume a: "d = []" "e \<noteq> []"
  have s: "storeField ''error'' e \<lparr>Data = [], Error = []\<rparr> = Some \<lparr>Data = [], Error = e\<rparr>"
    by (simp add: storeField_def)
  have "structEncode \<lparr>Data = d, Error = e\<rparr> = ''{'' @ appendString ''error'' @ '':'' @ appendString e @ ''}''"
    using a by (simp add: structEncode_def structFields_def)
  then show ?thesis
    using member_last [OF valid_names(2) assms(2) s] a(1)
    by (simp add: Unmarshal_open del: appendStringBody.simps)
next
  assume a: "d \<noteq> []" "e = []"
  have s: "storeField ''data'' d \<lparr>Data = [], Error = []\<rparr> = Some \<lparr>Data = d, Error = []\<rparr>"
    by (simp add: storeField_def)
  have "structEncode \<lparr>Data = d, Error = e\<rparr> = ''{'' @ appendString ''data'' @ '':'' @ appendString d @ ''}''"
    using a by (simp add: structEncode_def structFields_def)
  then show ?thesis
    using member_last [OF valid_names(1) assms(1) s] a(2)
    by (simp add: Unmarshal_open del: appendStringBody.simps)
next
  assume a: "d \<noteq> []" "e \<noteq> []"
  have s1: "storeField ''data'' d \<lparr>Data = [], Error = []\<rparr> = Some \<lparr>Data = d, Error = []\<rparr>"
    by (simp add: storeField_def)
  have s2: "storeField ''error'' e \<lparr>Data = d, Error = []\<rparr> = Some \<lparr>Data = d, Error = e\<rparr>"
    by (simp add: storeField_def)
  have "structEncode \<lparr>Data = d, Error = e\<rparr>
          = ''{'' @ appendString ''data'' @ '':'' @ appendString d @ '','' @ appendString ''error''
              @ '':'' @ appendString e @ ''}''"
    using a by (simp add: structEncode_def structFields_def)
  then show ?thesis
    using member_more [OF valid_names(1) assms(1) s1, of "''error''" "CHR '':'' # appendString e @ [CHR ''}'']"]
      member_last [OF valid_names(2) assms(2) s2]
    by (simp add: Unmarshal_open del: appendStringBody.simps)
qed

subsection \<open>The envelope and its serialisation\<close>

text \<open>
  C9 (as amended). The claim is made for every envelope with a single field that is not
  empty. A Go string may hold bytes that are no UTF-8, and the encoder writes the escape of
  U+FFFD for each of them, so such a field does not come back. For every envelope whose two
  fields are valid UTF-8 (\<^verbatim>\<open>utf8.ValidString\<close>), and so for every envelope of text with a
  single field that is not empty, \<^verbatim>\<open>json.Marshal\<close> succeeds and decoding its output gives the
  envelope back, with both fields unchanged.
\<close>

theorem envelope_roundtrip:
  assumes "ValidString (Data v)" and "ValidString (Error v)"
  shows "json_Marshal v = Inr (structEncode v) \<and> Unmarshal (structEncode v) = Some v"
proof -
  obtain d e where v: "v = \<lparr>Data = d, Error = e\<rparr>"
    by (cases v)
  have "Unmarshal (structEncode \<lparr>Data = d, Error = e\<rparr>) = Some \<lparr>Data = d, Error = e\<rparr>"
    using assms by (intro Unmarshal_structEncode) (simp_all add: v)
  then show ?thesis
    by (simp add: json_Marshal_def v)
qed

theorem envelope_roundtrip_witness:
  "Unmarshal ''{\"data\":\"x\"}'' = Some \<lparr>Data = ''x'', Error = []\<rparr>
   \<and> Unmarshal ''{\"error\":\"y\"}'' = Some \<lparr>Data = [], Error = ''y''\<rparr>"
proof -
  have x: "ValidString (Data \<lparr>Data = ''x'', Error = []\<rparr>)"
    and x': "ValidString (Error \<lparr>Data = ''x'', Error = []\<rparr>)"
    and y: "ValidString (Data \<lparr>Data = [], Error = ''y''\<rparr>)"
    and y': "ValidString (Error \<lparr>Data = [], Error = ''y''\<rparr>)"
    by (simp_all add: byte_def)
  have ex: "structEncode \<lparr>Data = ''x'', Error = []\<rparr> = ''{\"data\":\"x\"}''"
    by (simp add: structEncode_data appendString_def htmlSafeSet_def byte_def)
  have ey: "structEncode \<lparr>Data = [], Error = ''y''\<rparr> = ''{\"error\":\"y\"}''"
    by (simp add: structEncode_error appendString_def htmlSafeSet_def byte_def)
  show ?thesis
    using envelope_roundtrip [OF x x'] envelope_roundtrip [OF y y']
    by (simp only: ex ey)
qed

text \<open>
  An error field that holds the single byte \<^verbatim>\<open>0xFF\<close>, as the recovery makes it for
  \<^verbatim>\<open>panic("\xff")\<close>: the encoder writes the escape of U+FFFD, and the decoder gives the three
  bytes of U+FFFD.
\<close>

theorem invalid_byte_not_restored:
  "structEncode replaced = [CHR ''{'', CHR 0x22, CHR ''e'', CHR ''r'', CHR ''r'', CHR ''o'', CHR ''r'',
      CHR 0x22, CHR '':'', CHR 0x22, CHR 0x5C, CHR ''u'', CHR ''f'', CHR ''f'', CHR ''f'', CHR ''d'',
      CHR 0x22, CHR ''}'']
   \<and> Unmarshal (structEncode replaced) = Some \<lparr>Data = [], Error = [CHR 0xEF, CHR 0xBF, CHR 0xBD]\<rparr>
   \<and> Unmarshal (structEncode replaced) \<noteq> Some replaced"
proof -
  have e: "structEncode replaced = [CHR ''{'', CHR 0x22, CHR ''e'', CHR ''r'', CHR ''r'', CHR ''o'',
      CHR ''r'', CHR 0x22, CHR '':'', CHR 0x22, CHR 0x5C, CHR ''u'', CHR ''f'', CHR ''f'', CHR ''f'',
      CHR ''d'', CHR 0x22, CHR ''}'']"
    by (simp add: replaced_def structEncode_def structFields_def appendString_def htmlSafeSet_def
          byte_def DecodeRuneInString_def first_def RuneError_def)
  have k: "stringLit [CHR 0x22, CHR ''e'', CHR ''r'', CHR ''r'', CHR ''o'', CHR ''r'',
      CHR 0x22, CHR '':'', CHR 0x22, CHR 0x5C, CHR ''u'', CHR ''f'', CHR ''f'', CHR ''f'', CHR ''d'',
      CHR 0x22, CHR ''}'']
      = Some (''error'', [CHR '':'', CHR 0x22, CHR 0x5C, CHR ''u'', CHR ''f'', CHR ''f'', CHR ''f'',
          CHR ''d'', CHR 0x22, CHR ''}''])"
    by (simp add: stringLit_def byte_def)
  have v: "stringLit [CHR 0x22, CHR 0x5C, CHR ''u'', CHR ''f'', CHR ''f'', CHR ''f'', CHR ''d'',
      CHR 0x22, CHR ''}'']
      = Some ([CHR 0xEF, CHR 0xBF, CHR 0xBD], [CHR ''}''])"
    by (simp add: stringLit_def validEscape_def hexval_def byte_def unicodeEscape_def getu4_def
          AppendRune_def encode3_def RuneError_def char_of_eq_iff)
  have u: "Unmarshal (structEncode replaced)
             = Some \<lparr>Data = [], Error = [CHR 0xEF, CHR 0xBF, CHR 0xBD]\<rparr>"
    unfolding e
    by (simp add: Unmarshal_def skipSpace_def isSpace_def)
       (subst objectMembers.simps, simp add: k v skipSpace_def isSpace_def storeField_def)
  show ?thesis
    using e u by (simp add: replaced_def)
qed

text \<open>
  C10. Both fields carry \<^verbatim>\<open>omitempty\<close>, so the encoder writes a member only for a field
  that is not empty: every member it writes has a value that is not empty, a success body
  has the one key \<^verbatim>\<open>data\<close> and no key \<^verbatim>\<open>error\<close>, an error body has the one key
  \<^verbatim>\<open>error\<close> and no key \<^verbatim>\<open>data\<close>, and the envelope with both fields empty is
  serialised as \<^verbatim>\<open>{}\<close>.
\<close>

theorem omitempty_drops_empty_fields:
  "structEncode \<lparr>Data = [], Error = []\<rparr> = ''{}''
   \<and> (d \<noteq> [] \<longrightarrow>
        structEncode \<lparr>Data = d, Error = []\<rparr> = ''{\"data\":'' @ appendString d @ ''}''
      \<and> map fst (structFields \<lparr>Data = d, Error = []\<rparr>) = [''data''])
   \<and> (e \<noteq> [] \<longrightarrow>
        structEncode \<lparr>Data = [], Error = e\<rparr> = ''{\"error\":'' @ appendString e @ ''}''
      \<and> map fst (structFields \<lparr>Data = [], Error = e\<rparr>) = [''error''])
   \<and> list_all (\<lambda>(name, s). s \<noteq> []) (structFields v)
   \<and> map fst (structFields v)
        = (if Data v = [] then [] else [''data'']) @ (if Error v = [] then [] else [''error''])"
  by (simp add: structEncode_data structEncode_error)
     (simp add: structEncode_def structFields_def)

theorem omitempty_drops_empty_fields_witness:
  "structEncode \<lparr>Data = [], Error = []\<rparr> = ''{}''
   \<and> structEncode \<lparr>Data = ''x'', Error = []\<rparr> = ''{\"data\":\"x\"}''
   \<and> map fst (structFields \<lparr>Data = ''x'', Error = []\<rparr>) = [''data'']
   \<and> structEncode \<lparr>Data = [], Error = ''y''\<rparr> = ''{\"error\":\"y\"}''
   \<and> map fst (structFields \<lparr>Data = [], Error = ''y''\<rparr>) = [''error'']"
proof -
  have a: "appendString ''x'' = ''\"x\"''" "appendString ''y'' = ''\"y\"''"
    by (simp_all add: appendString_def htmlSafeSet_def byte_def)
  show ?thesis
    using omitempty_drops_empty_fields [of "''x''" "''y''" "\<lparr>Data = [], Error = []\<rparr>"]
    by (simp add: a)
qed

end
